theory Spec2Isabelle
  imports Complex_Main
begin

section \<open>Conventions of the embedding\<close>

text \<open>
  The client library is embedded function by function. Go's \<^verbatim>\<open>int\<close> and
  \<^verbatim>\<open>time.Duration\<close> (both 64-bit) are HOL integers, with the behaviour of the
  conversion from \<^verbatim>\<open>float64\<close> outside the 64-bit range written out.
  The backoff computation is given twice: in exact arithmetic over the reals, and in
  \<^verbatim>\<open>float64\<close> arithmetic with its rounding, its infinities and NaN; the token bucket is
  given over the reals. Durations and clock readings are counted in nanoseconds.
  A Go string is the list of its Unicode code points; byte slices are HOL strings.
\<close>

type_synonym gostring = "nat list"
type_synonym bytes = string

definition str :: "string \<Rightarrow> gostring" where
  "str s = map of_char s"

definition Millisecond :: int where
  "Millisecond = 1000000"

definition Second :: int where
  "Second = 1000 * Millisecond"

definition Minute :: int where
  "Minute = 60 * Second"

definition is_int64 :: "int \<Rightarrow> bool" where
  "is_int64 n = (- (2 ^ 63) \<le> n \<and> n < 2 ^ 63)"

text \<open>Rounding towards zero, as Go's conversion of a float to an integer type does.\<close>

definition trunc_zero :: "real \<Rightarrow> int" where
  "trunc_zero x = (if 0 \<le> x then \<lfloor>x\<rfloor> else \<lceil>x\<rceil>)"

text \<open>
  \<^verbatim>\<open>int(x)\<close> and \<^verbatim>\<open>time.Duration(x)\<close> for a float \<open>x\<close>. Where the truncated value
  does not fit 64 bits the language leaves the result to the implementation; the value
  produced on amd64 (the most negative integer) is taken.
\<close>

definition float_to_int64 :: "real \<Rightarrow> int" where
  "float_to_int64 x =
     (let t = trunc_zero x in if is_int64 t then t else - (2 ^ 63))"

section \<open>Errors\<close>

text \<open>
  An \<^verbatim>\<open>error\<close> value, as far as the client can tell errors apart: the two errors of
  a context, values of a type implementing \<^verbatim>\<open>net.Error\<close> (with what their
  \<^verbatim>\<open>Timeout()\<close> method answers), plain messages, the sentinel errors of the package,
  and errors made by \<^verbatim>\<open>fmt.Errorf\<close> with a \<^verbatim>\<open>%w\<close> verb around another error
  (or around \<^verbatim>\<open>nil\<close>). \<^verbatim>\<open>context.DeadlineExceeded\<close> has a \<^verbatim>\<open>Timeout()\<close> method
  answering true and so implements \<^verbatim>\<open>net.Error\<close>; the wrapper made by
  \<^verbatim>\<open>fmt.Errorf\<close> has no such method.
\<close>

datatype go_error =
    Canceled
  | DeadlineExceeded
  | OpError bool
  | DNSError bool
  | OtherNetError bool
  | ErrorString string
  | UnexpectedStatus int
  | ErrRateLimited
  | ErrProductNotFound
  | ErrInternalServer
  | ErrServiceUnavailable
  | APIError int gostring
  | Wrapped string "go_error option"

text \<open>The type assertion \<^verbatim>\<open>err.(net.Error)\<close>: the kind of network error and its
  \<^verbatim>\<open>Timeout()\<close> when the dynamic type implements the interface.\<close>

datatype net_kind = IsOpError | IsDNSError | IsOther

fun as_net_error :: "go_error \<Rightarrow> (net_kind \<times> bool) option" where
  "as_net_error DeadlineExceeded = Some (IsOther, True)"
| "as_net_error (OpError t) = Some (IsOpError, t)"
| "as_net_error (DNSError t) = Some (IsDNSError, t)"
| "as_net_error (OtherNetError t) = Some (IsOther, t)"
| "as_net_error _ = None"

fun errorFromCode :: "int \<Rightarrow> gostring \<Rightarrow> go_error" where
  "errorFromCode code message =
     (if code = 404 then ErrProductNotFound
      else if code = 429 then ErrRateLimited
      else if code = 500 then ErrInternalServer
      else if code = 503 then ErrServiceUnavailable
      else APIError code message)"

section \<open>Retry policy\<close>

record RetryConfig =
  MaxRetries :: int
  InitialBackoff :: int
  MaxBackoff :: int
  Multiplier :: real
  Jitter :: real

definition DefaultRetryConfig :: RetryConfig where
  "DefaultRetryConfig =
     \<lparr>MaxRetries = 3, InitialBackoff = 500 * Millisecond, MaxBackoff = 30 * Second,
      Multiplier = 2, Jitter = 1 / 10\<rparr>"

definition NoRetry :: RetryConfig where
  "NoRetry =
     \<lparr>MaxRetries = 0, InitialBackoff = 0, MaxBackoff = 0, Multiplier = 0, Jitter = 0\<rparr>"

fun isTemporaryNetErr :: "net_kind \<Rightarrow> bool" where
  "isTemporaryNetErr IsOpError = False"
| "isTemporaryNetErr IsDNSError = False"
| "isTemporaryNetErr IsOther = False"

definition isTemporaryNetworkError :: "go_error option \<Rightarrow> bool" where
  "isTemporaryNetworkError err =
     (case err of
        None \<Rightarrow> False
      | Some e \<Rightarrow>
          (case as_net_error e of
             Some (kind, timeout) \<Rightarrow> timeout \<or> isTemporaryNetErr kind
           | None \<Rightarrow> False))"

definition isTimeoutError :: "go_error option \<Rightarrow> bool" where
  "isTimeoutError err =
     (case err of
        None \<Rightarrow> False
      | Some e \<Rightarrow>
          (case as_net_error e of
             Some (kind, timeout) \<Rightarrow> timeout
           | None \<Rightarrow> False))"

definition shouldRetry :: "go_error option \<Rightarrow> int \<Rightarrow> bool" where
  "shouldRetry err statusCode =
     (if err \<noteq> None \<and> isTemporaryNetworkError err then True
      else if err \<noteq> None \<and> isTimeoutError err then True
      else if statusCode = 429 then True
      else if statusCode = 500 then True
      else if statusCode = 502 then True
      else if statusCode = 503 then True
      else if statusCode = 504 then True
      else False)"






section \<open>The backoff in float64 arithmetic\<close>

text \<open>
  IEEE 754 binary64 as far as \<^verbatim>\<open>calculateBackoff\<close> uses it. A value is NaN, an
  infinity or a finite real; the sign of zero, which no operation used here can tell
  apart, is left out. An operation is the exact operation followed by rounding to
  nearest, ties to even (each operation rounds by itself, as on amd64, where the compiler
  does not fuse a multiplication with an addition).
\<close>

datatype f64 = NaN | NegInf | Fin real | PosInf

text \<open>Rounding of a real to an integer, ties to even.\<close>

definition rne :: "real \<Rightarrow> int" where
  "rne y =
     (let n = \<lfloor>y\<rfloor>; d = y - real_of_int n
      in if d < 1 / 2 then n else if d > 1 / 2 then n + 1 else if even n then n else n + 1)"

text \<open>
  The exponent of a real (not below the one of the subnormal numbers), the distance
  between neighbouring floats of that exponent, the nearest float, and rounding with
  overflow to an infinity.
\<close>

definition f64_exp :: "real \<Rightarrow> int" where
  "f64_exp x = max \<lfloor>log 2 \<bar>x\<bar>\<rfloor> (- 1022)"

definition f64_quantum :: "real \<Rightarrow> real" where
  "f64_quantum x = 2 powr real_of_int (max \<lfloor>log 2 \<bar>x\<bar>\<rfloor> (- 1022) - 52)"

definition round_f64 :: "real \<Rightarrow> real" where
  "round_f64 x = (if x = 0 then 0 else real_of_int (rne (x / f64_quantum x)) * f64_quantum x)"

definition rnd64 :: "real \<Rightarrow> f64" where
  "rnd64 x =
     (let y = round_f64 x
      in if y \<ge> 2 ^ 1024 then PosInf else if y \<le> - (2 ^ 1024) then NegInf else Fin y)"

fun f64_neg :: "f64 \<Rightarrow> f64" where
  "f64_neg NaN = NaN"
| "f64_neg NegInf = PosInf"
| "f64_neg (Fin x) = Fin (- x)"
| "f64_neg PosInf = NegInf"

fun f64_add :: "f64 \<Rightarrow> f64 \<Rightarrow> f64" where
  "f64_add (Fin x) (Fin y) = rnd64 (x + y)"
| "f64_add NaN b = NaN"
| "f64_add a NaN = NaN"
| "f64_add PosInf NegInf = NaN"
| "f64_add NegInf PosInf = NaN"
| "f64_add PosInf b = PosInf"
| "f64_add a PosInf = PosInf"
| "f64_add NegInf b = NegInf"
| "f64_add a NegInf = NegInf"

definition f64_sub :: "f64 \<Rightarrow> f64 \<Rightarrow> f64" where
  "f64_sub a b = f64_add a (f64_neg b)"

fun f64_mul :: "f64 \<Rightarrow> f64 \<Rightarrow> f64" where
  "f64_mul (Fin x) (Fin y) = rnd64 (x * y)"
| "f64_mul NaN b = NaN"
| "f64_mul a NaN = NaN"
| "f64_mul (Fin x) b = (if x = 0 then NaN else if x > 0 then b else f64_neg b)"
| "f64_mul a (Fin y) = (if y = 0 then NaN else if y > 0 then a else f64_neg a)"
| "f64_mul PosInf b = b"
| "f64_mul NegInf b = f64_neg b"

fun f64_gt :: "f64 \<Rightarrow> f64 \<Rightarrow> bool" where
  "f64_gt (Fin x) (Fin y) = (x > y)"
| "f64_gt NaN b = False"
| "f64_gt a NaN = False"
| "f64_gt a PosInf = False"
| "f64_gt PosInf b = True"
| "f64_gt NegInf b = False"
| "f64_gt a NegInf = True"

text \<open>
  \<^verbatim>\<open>float64(n)\<close> for an integer and \<^verbatim>\<open>int(x)\<close>, \<^verbatim>\<open>time.Duration(x)\<close> for a float.
  For NaN and the infinities, as for a finite value that does not fit, the result of the
  conversion is left to the implementation; the value produced on amd64 is taken.
\<close>

definition f64_of_int :: "int \<Rightarrow> f64" where
  "f64_of_int n = rnd64 (real_of_int n)"

fun f64_to_int64 :: "f64 \<Rightarrow> int" where
  "f64_to_int64 (Fin x) = float_to_int64 x"
| "f64_to_int64 a = - (2 ^ 63)"

function pow_loop_f64 :: "f64 \<Rightarrow> int \<Rightarrow> int \<Rightarrow> f64 \<Rightarrow> f64" where
  "pow_loop_f64 base n i result =
     (if i < n then pow_loop_f64 base n (i + 1) (f64_mul result base) else result)"
  by pat_completeness auto
termination
  by (relation "measure (\<lambda>(base, n, i, result). nat (n - i))") auto

declare pow_loop_f64.simps [simp del]

definition pow_f64 :: "f64 \<Rightarrow> f64 \<Rightarrow> f64" where
  "pow_f64 base exponent = pow_loop_f64 base (f64_to_int64 exponent) 0 (Fin 1)"

text \<open>
  \<open>calculateBackoff_f64 c attempt draw\<close>: the fields \<open>Multiplier\<close> and \<open>Jitter\<close> of the
  configuration and the draw of \<^verbatim>\<open>rand.Float64()\<close> are the values of finite floats.
\<close>

definition calculateBackoff_f64 :: "RetryConfig \<Rightarrow> int \<Rightarrow> real \<Rightarrow> int" where
  "calculateBackoff_f64 c attempt draw =
     (let backoff = f64_mul (f64_of_int (InitialBackoff c))
                      (pow_f64 (Fin (Multiplier c)) (f64_of_int attempt));
          backoff = (if f64_gt (Fin (Jitter c)) (Fin 0)
                     then f64_add backoff
                            (f64_mul (f64_mul backoff (Fin (Jitter c)))
                               (f64_sub (f64_mul (Fin draw) (Fin 2)) (Fin 1)))
                     else backoff);
          backoff = (if f64_gt backoff (f64_of_int (MaxBackoff c))
                     then f64_of_int (MaxBackoff c)
                     else backoff)
      in f64_to_int64 backoff)"





section \<open>Rate limiter\<close>

text \<open>
  The token bucket. \<open>lastRefill\<close> is a reading of the process's monotonic clock.
  \<^verbatim>\<open>Duration.Seconds()\<close> is the duration divided by \<open>10\<^sup>9\<close>.
\<close>

record RateLimiter =
  tokens :: real
  maxTokens :: real
  refillRate :: real
  lastRefill :: int

definition Seconds :: "int \<Rightarrow> real" where
  "Seconds d = real_of_int d / 1000000000"

text \<open>\<open>NewRateLimiter requestsPerSecond now\<close>, where \<open>now\<close> is what \<^verbatim>\<open>time.Now()\<close> reads.\<close>

definition NewRateLimiter :: "real \<Rightarrow> int \<Rightarrow> RateLimiter" where
  "NewRateLimiter requestsPerSecond now =
     \<lparr>tokens = requestsPerSecond, maxTokens = requestsPerSecond,
      refillRate = requestsPerSecond, lastRefill = now\<rparr>"

text \<open>The two errors that \<^verbatim>\<open>ctx.Err()\<close> returns once the context is done.\<close>

datatype ctx_error = CtxCanceled | CtxDeadlineExceeded

fun ctx_Err :: "ctx_error \<Rightarrow> go_error" where
  "ctx_Err CtxCanceled = Canceled"
| "ctx_Err CtxDeadlineExceeded = DeadlineExceeded"

text \<open>Which case of a \<^verbatim>\<open>select\<close> between \<^verbatim>\<open>ctx.Done()\<close> and a timer is taken.\<close>

datatype select_case = CtxDone ctx_error | TimerFired

text \<open>A call that has returned a value, or one that is still blocked.\<close>

datatype 'a call = Returned 'a | Pending

text \<open>The first half of an iteration of \<^verbatim>\<open>Wait\<close>, under the lock: the lazy refill.\<close>

definition refill :: "int \<Rightarrow> RateLimiter \<Rightarrow> RateLimiter" where
  "refill now r =
     (let elapsed = Seconds (now - lastRefill r);
          r = r\<lparr>tokens := tokens r + elapsed * refillRate r\<rparr>;
          r = (if tokens r > maxTokens r then r\<lparr>tokens := maxTokens r\<rparr> else r)
      in r\<lparr>lastRefill := now\<rparr>)"

definition waitTime :: "RateLimiter \<Rightarrow> int" where
  "waitTime r = float_to_int64 ((1 - tokens r) / refillRate r * 1000) * Millisecond"

text \<open>
  \<^verbatim>\<open>Wait\<close> loops until a token is there or the context is done. What the outside
  world contributes to one iteration is an event: the reading of the clock at the top
  of the iteration, and the case that the \<^verbatim>\<open>select\<close> takes should the iteration have
  to wait (the timer is set to \<open>waitTime\<close>; when it fires is for the clock to say, in
  the next event). The call is run against the list of the events so far; when the list
  is used up the call is still blocked.
\<close>

type_synonym wait_event = "int \<times> select_case"

fun Wait :: "wait_event list \<Rightarrow> RateLimiter \<Rightarrow> go_error option call \<times> RateLimiter" where
  "Wait [] r = (Pending, r)"
| "Wait ((now, sel) # events) r =
     (let r = refill now r
      in if tokens r \<ge> 1 then (Returned None, r\<lparr>tokens := tokens r - 1\<rparr>)
         else (case sel of
                 CtxDone e \<Rightarrow> (Returned (Some (ctx_Err e)), r)
               | TimerFired \<Rightarrow> Wait events r))"

text \<open>The invariant of the bucket, and clock readings that never go back.\<close>

definition limiter_inv :: "RateLimiter \<Rightarrow> bool" where
  "limiter_inv r = (0 \<le> tokens r \<and> tokens r \<le> maxTokens r)"

fun clock_mono :: "int \<Rightarrow> int list \<Rightarrow> bool" where
  "clock_mono t [] = True"
| "clock_mono t (now # later) = (t \<le> now \<and> clock_mono now later)"

text \<open>Refills alone, one for each clock reading, with no token taken.\<close>

fun refills :: "int list \<Rightarrow> RateLimiter \<Rightarrow> RateLimiter" where
  "refills [] r = r"
| "refills (now # later) r = refills later (refill now r)"

text \<open>At each of the clock readings, after the refill, there is less than one token:
  a call that runs through them is waiting.\<close>

fun starved :: "int list \<Rightarrow> RateLimiter \<Rightarrow> bool" where
  "starved [] r = True"
| "starved (now # later) r = (tokens (refill now r) < 1 \<and> starved later (refill now r))"

section \<open>The client and its surroundings\<close>

type_synonym url_values = "(gostring \<times> gostring list) list"

text \<open>The request body of the search endpoint, the only body the client sends.\<close>

datatype req_body = searchRequestBody gostring

text \<open>What a round trip of the HTTP client comes to: \<^verbatim>\<open>httpClient.Do\<close> fails, or
  there is a response with a status whose body cannot be read, or can.\<close>

datatype http_reply =
    DoFails go_error
  | ReadFails int go_error
  | Reply int bytes

text \<open>
  What the client does not decide itself, as functions of the number of the call:
  the replies of the HTTP client, whether the context ends a backoff sleep, the events
  of each wait at the rate limiter, the draws of the random generator and the answers of
  the cache (any implementation of the \<^verbatim>\<open>Cache\<close> interface). The library functions
  \<^verbatim>\<open>json.Marshal\<close>, \<^verbatim>\<open>http.NewRequestWithContext\<close> and \<^verbatim>\<open>url.Values.Encode\<close>
  are parameters too.
\<close>

record env =
  Marshal :: "req_body \<Rightarrow> go_error + bytes"
  NewRequest :: "gostring \<Rightarrow> gostring \<Rightarrow> go_error option"
  Encode :: "url_values \<Rightarrow> gostring"
  http_do :: "nat \<Rightarrow> http_reply"
  ctx_sleep :: "nat \<Rightarrow> ctx_error option"
  limiter_events :: "nat \<Rightarrow> wait_event list"
  rand_Float64 :: "nat \<Rightarrow> real"
  cache_reply :: "nat \<Rightarrow> gostring \<Rightarrow> bytes option"

text \<open>
  The state that a call changes: the rate limiter, and the record of what was done to
  the outside: the requests handed to the HTTP client (method, URL, body), the backoff
  sleeps (their durations), the number of waits at the rate limiter, and the calls of
  \<^verbatim>\<open>Get\<close> and \<^verbatim>\<open>Set\<close> on the cache.
\<close>

record world =
  limiter :: RateLimiter
  http_log :: "(gostring \<times> gostring \<times> bytes option) list"
  sleeps :: "int list"
  wait_calls :: nat
  cache_gets :: "gostring list"
  cache_sets :: "(gostring \<times> bytes \<times> int) list"

record Client =
  baseURL :: gostring
  currency :: gostring
  hasCache :: bool
  retryConfig :: RetryConfig

definition sleep :: "env \<Rightarrow> int \<Rightarrow> world \<Rightarrow> go_error option \<times> world" where
  "sleep env d w =
     (case ctx_sleep env (length (sleeps w)) of
        Some e \<Rightarrow> (Some (ctx_Err e), w\<lparr>sleeps := sleeps w @ [d]\<rparr>)
      | None \<Rightarrow> (None, w\<lparr>sleeps := sleeps w @ [d]\<rparr>))"

definition rateLimiter_Wait :: "env \<Rightarrow> world \<Rightarrow> go_error option call \<times> world" where
  "rateLimiter_Wait env w =
     (case Wait (limiter_events env (wait_calls w)) (limiter w) of
        (res, r) \<Rightarrow> (res, w\<lparr>limiter := r, wait_calls := Suc (wait_calls w)\<rparr>))"

definition cache_Get :: "env \<Rightarrow> gostring \<Rightarrow> world \<Rightarrow> bytes option \<times> world" where
  "cache_Get env key w =
     (cache_reply env (length (cache_gets w)) key, w\<lparr>cache_gets := cache_gets w @ [key]\<rparr>)"

definition cache_Set :: "gostring \<Rightarrow> bytes \<Rightarrow> int \<Rightarrow> world \<Rightarrow> world" where
  "cache_Set key val ttl w = w\<lparr>cache_sets := cache_sets w @ [(key, val, ttl)]\<rparr>"

definition buildCacheKey :: "env \<Rightarrow> Client \<Rightarrow> gostring \<Rightarrow> gostring \<Rightarrow> url_values option \<Rightarrow> gostring" where
  "buildCacheKey env c method path params =
     (let key = method @ str '':'' @ currency c @ str '':'' @ path
      in case params of
           None \<Rightarrow> key
         | Some ps \<Rightarrow> key @ str ''?'' @ Encode env ps)"

definition executeRequest ::
  "env \<Rightarrow> Client \<Rightarrow> gostring \<Rightarrow> gostring \<Rightarrow> url_values option \<Rightarrow> req_body option \<Rightarrow> world
   \<Rightarrow> (bytes option \<times> int \<times> go_error option) \<times> world" where
  "executeRequest env c method path params body w =
     (let reqURL = baseURL c @ path;
          reqURL = (case params of
                      None \<Rightarrow> reqURL
                    | Some ps \<Rightarrow> if length ps > 0 then reqURL @ str ''?'' @ Encode env ps else reqURL);
          marshalled = (case body of
                          None \<Rightarrow> Inr None
                        | Some b \<Rightarrow> (case Marshal env b of
                                      Inl e \<Rightarrow> Inl e
                                    | Inr jsonBody \<Rightarrow> Inr (Some jsonBody)))
      in case marshalled of
           Inl e \<Rightarrow> ((None, 0, Some (Wrapped ''failed to marshal request body'' (Some e))), w)
         | Inr bodyReader \<Rightarrow>
             (case NewRequest env method reqURL of
                Some e \<Rightarrow> ((None, 0, Some (Wrapped ''failed to create request'' (Some e))), w)
              | None \<Rightarrow>
                  (let w' = w\<lparr>http_log := http_log w @ [(method, reqURL, bodyReader)]\<rparr>
                   in case http_do env (length (http_log w)) of
                        DoFails e \<Rightarrow> ((None, 0, Some (Wrapped ''request failed'' (Some e))), w')
                      | ReadFails status e \<Rightarrow>
                          ((None, status, Some (Wrapped ''failed to read response'' (Some e))), w')
                      | Reply status respBody \<Rightarrow>
                          if status \<noteq> 200
                          then ((None, status, Some (UnexpectedStatus status)), w')
                          else ((Some respBody, status, None), w'))))"

text \<open>The retry loop of \<^verbatim>\<open>doRequest\<close>, from attempt number \<open>attempt\<close> on.\<close>

function doRequest_loop ::
  "env \<Rightarrow> Client \<Rightarrow> gostring \<Rightarrow> gostring \<Rightarrow> url_values option \<Rightarrow> req_body option \<Rightarrow> gostring
   \<Rightarrow> int \<Rightarrow> go_error option \<Rightarrow> world \<Rightarrow> (bytes option \<times> go_error option) call \<times> world" where
  "doRequest_loop env c method path params body cacheKey attempt lastErr w =
     (if attempt \<le> MaxRetries (retryConfig c) then
        (case (if attempt > 0
               then sleep env (calculateBackoff_f64 (retryConfig c) (attempt - 1)
                                 (rand_Float64 env (length (sleeps w)))) w
               else (None, w)) of
           (Some err, w) \<Rightarrow> (Returned (None, Some err), w)
         | (None, w) \<Rightarrow>
             (case rateLimiter_Wait env w of
                (Pending, w) \<Rightarrow> (Pending, w)
              | (Returned (Some err), w) \<Rightarrow>
                  (Returned (None, Some (Wrapped ''rate limiter'' (Some err))), w)
              | (Returned None, w) \<Rightarrow>
                  (case executeRequest env c method path params body w of
                     ((respBody, statusCode, Some err), w) \<Rightarrow>
                       if shouldRetry (Some err) statusCode
                       then doRequest_loop env c method path params body cacheKey
                              (attempt + 1) (Some err) w
                       else (Returned (None, Some err), w)
                   | ((respBody, statusCode, None), w) \<Rightarrow>
                       (case respBody of
                          Some b \<Rightarrow>
                            (Returned (Some b, None),
                             if cacheKey \<noteq> [] \<and> hasCache c
                             then cache_Set cacheKey b (5 * Minute) w else w)
                        | None \<Rightarrow>
                            (Returned (None, None),
                             if cacheKey \<noteq> [] \<and> hasCache c
                             then cache_Set cacheKey [] (5 * Minute) w else w)))))
      else (Returned (None, Some (Wrapped ''max retries exceeded'' lastErr)), w))"
  by pat_completeness auto
termination
  by (relation "measure (\<lambda>(env, c, method, path, params, body, cacheKey, attempt, lastErr, w).
                   nat (MaxRetries (retryConfig c) + 1 - attempt))") auto

declare doRequest_loop.simps [simp del]

definition doRequest ::
  "env \<Rightarrow> Client \<Rightarrow> gostring \<Rightarrow> gostring \<Rightarrow> url_values option \<Rightarrow> req_body option \<Rightarrow> world
   \<Rightarrow> (bytes option \<times> go_error option) call \<times> world" where
  "doRequest env c method path params body w =
     (if method = str ''GET'' \<and> hasCache c then
        (let cacheKey = buildCacheKey env c method path params
         in case cache_Get env cacheKey w of
              (Some cached, w) \<Rightarrow> (Returned (Some cached, None), w)
            | (None, w) \<Rightarrow> doRequest_loop env c method path params body cacheKey 0 None w)
      else doRequest_loop env c method path params body [] 0 None w)"

text \<open>\<^verbatim>\<open>NewClient()\<close> without options, the option \<^verbatim>\<open>WithCache\<close>, and the state of a
  client made at clock reading \<open>now\<close>.\<close>

definition NewClient :: Client where
  "NewClient =
     \<lparr>baseURL = str ''https://wmsc.lcsc.com/ftps/wm'', currency = str ''USD'',
      hasCache = False, retryConfig = DefaultRetryConfig\<rparr>"

definition WithCache :: "Client \<Rightarrow> Client" where
  "WithCache c = c\<lparr>hasCache := True\<rparr>"

definition new_world :: "int \<Rightarrow> world" where
  "new_world now =
     \<lparr>limiter = NewRateLimiter 5 now, http_log = [], sleeps = [], wait_calls = 0,
      cache_gets = [], cache_sets = []\<rparr>"

text \<open>
  Two conditions on a run. The attempt made in the state \<open>w\<close> is one that the code
  retries: \<^verbatim>\<open>executeRequest\<close> returns an error that \<^verbatim>\<open>shouldRetry\<close> accepts (which,
  the error of the transport being wrapped by then, the status alone can bring about).
  And the next \<open>n\<close> waits at the rate limiter, from wait number \<open>k\<close> on and from the
  bucket \<open>r\<close>, each get their token.
\<close>

definition attempt_retried ::
  "env \<Rightarrow> Client \<Rightarrow> gostring \<Rightarrow> gostring \<Rightarrow> url_values option \<Rightarrow> req_body option \<Rightarrow> world \<Rightarrow> bool" where
  "attempt_retried env c method path params body w =
     (case executeRequest env c method path params body w of
        ((respBody, statusCode, err), w') \<Rightarrow> err \<noteq> None \<and> shouldRetry err statusCode)"

fun waits_granted :: "env \<Rightarrow> RateLimiter \<Rightarrow> nat \<Rightarrow> nat \<Rightarrow> bool" where
  "waits_granted env r k 0 = True"
| "waits_granted env r k (Suc n) =
     (case Wait (limiter_events env k) r of
        (Returned None, r') \<Rightarrow> waits_granted env r' (Suc k) n
      | _ \<Rightarrow> False)"

section \<open>Product endpoints\<close>

text \<open>\<^verbatim>\<open>unicode.IsSpace\<close> on a code point, and \<^verbatim>\<open>strings.TrimSpace\<close>.\<close>

definition isSpace :: "nat \<Rightarrow> bool" where
  "isSpace r =
     (r = 0x09 \<or> r = 0x0A \<or> r = 0x0B \<or> r = 0x0C \<or> r = 0x0D \<or> r = 0x20 \<or> r = 0x85 \<or> r = 0xA0
      \<or> r = 0x1680 \<or> (0x2000 \<le> r \<and> r \<le> 0x200A) \<or> r = 0x2028 \<or> r = 0x2029 \<or> r = 0x202F
      \<or> r = 0x205F \<or> r = 0x3000)"

definition TrimSpace :: "gostring \<Rightarrow> gostring" where
  "TrimSpace s = rev (dropWhile isSpace (rev (dropWhile isSpace s)))"

text \<open>
  The types of the decoded responses are declared in a file that is not among the
  sources; they are given here with the fields that the endpoints read and write. The
  type of a product is left open.
\<close>

record apiResponse =
  Code :: int
  Message :: gostring
  Result :: bytes

record 'p searchResponseWrapper =
  ProductList :: "'p list"
  WrapperTotalCount :: int
  TipProductCode :: "gostring option"

record 'p SearchResponse =
  Products :: "'p list"
  TotalCount :: int
  DirectMatchCode :: gostring

text \<open>
  \<^verbatim>\<open>encoding/json\<close> for the types above: decoding of bytes into a fresh value of
  each type and encoding of the two results that are cached, with the zero values of the
  types decoded into.
\<close>

record 'p json =
  Unmarshal_apiResponse :: "bytes \<Rightarrow> go_error + apiResponse"
  Unmarshal_wrapper :: "bytes \<Rightarrow> go_error + 'p searchResponseWrapper"
  Unmarshal_Product :: "bytes \<Rightarrow> go_error + 'p"
  Unmarshal_SearchResponse :: "bytes \<Rightarrow> go_error + 'p SearchResponse"
  Marshal_Product :: "'p \<Rightarrow> go_error + bytes"
  Marshal_SearchResponse :: "'p SearchResponse \<Rightarrow> go_error + bytes"
  zero_Product :: 'p

definition zero_wrapper :: "'p searchResponseWrapper" where
  "zero_wrapper = \<lparr>ProductList = [], WrapperTotalCount = 0, TipProductCode = None\<rparr>"

text \<open>\<open>parseResponse js decode zero body\<close>: \<open>decode\<close> decodes into the type of the
  result, whose zero value is \<open>zero\<close>; failure is \<open>Inl\<close>.\<close>

definition parseResponse ::
  "'p json \<Rightarrow> (bytes \<Rightarrow> go_error + 'a) \<Rightarrow> 'a \<Rightarrow> bytes \<Rightarrow> go_error + 'a" where
  "parseResponse js decode zero body =
     (case Unmarshal_apiResponse js body of
        Inl e \<Rightarrow> Inl (Wrapped ''failed to parse response'' (Some e))
      | Inr resp \<Rightarrow>
          if Code resp \<noteq> 200 then Inl (errorFromCode (Code resp) (Message resp))
          else if length (Result resp) > 0 then
            (case decode (Result resp) of
               Inl e \<Rightarrow> Inl (Wrapped ''failed to parse result'' (Some e))
             | Inr v \<Rightarrow> Inr v)
          else Inr zero)"

definition getCacheKeySearch :: "Client \<Rightarrow> gostring \<Rightarrow> gostring" where
  "getCacheKeySearch c keyword = str ''search:'' @ currency c @ str '':'' @ keyword"

definition getCacheKeyProduct :: "Client \<Rightarrow> gostring \<Rightarrow> gostring" where
  "getCacheKeyProduct c productCode = str ''product:'' @ currency c @ str '':'' @ productCode"

text \<open>The cache lookup that opens both endpoints: a hit that decodes is the answer.\<close>

definition cached_lookup ::
  "env \<Rightarrow> Client \<Rightarrow> (bytes \<Rightarrow> go_error + 'a) \<Rightarrow> gostring \<Rightarrow> world \<Rightarrow> 'a option \<times> world" where
  "cached_lookup env c decode cacheKey w =
     (if hasCache c then
        (case cache_Get env cacheKey w of
           (Some cached, w) \<Rightarrow>
             (case decode cached of Inr v \<Rightarrow> (Some v, w) | Inl e \<Rightarrow> (None, w))
         | (None, w) \<Rightarrow> (None, w))
      else (None, w))"

definition KeywordSearch ::
  "env \<Rightarrow> 'p json \<Rightarrow> Client \<Rightarrow> gostring \<Rightarrow> world
   \<Rightarrow> ('p SearchResponse option \<times> go_error option) call \<times> world" where
  "KeywordSearch env js c reqKeyword w =
     (let keyword = TrimSpace reqKeyword
      in if keyword = [] then (Returned (None, Some (ErrorString ''keyword is required'')), w)
         else
           (let cacheKey = getCacheKeySearch c keyword
            in case cached_lookup env c (Unmarshal_SearchResponse js) cacheKey w of
                 (Some resp, w) \<Rightarrow> (Returned (Some resp, None), w)
               | (None, w) \<Rightarrow>
                   (case doRequest env c (str ''POST'') (str ''/search/v2/global'') None
                           (Some (searchRequestBody keyword)) w of
                      (Pending, w) \<Rightarrow> (Pending, w)
                    | (Returned (body, Some err), w) \<Rightarrow> (Returned (None, Some err), w)
                    | (Returned (body, None), w) \<Rightarrow>
                        (case parseResponse js (Unmarshal_wrapper js) zero_wrapper
                                (case body of Some b \<Rightarrow> b | None \<Rightarrow> []) of
                           Inl err \<Rightarrow> (Returned (None, Some err), w)
                         | Inr wrapper \<Rightarrow>
                             (let resp = \<lparr>Products = ProductList wrapper,
                                          TotalCount = WrapperTotalCount wrapper,
                                          DirectMatchCode =
                                            (case TipProductCode wrapper of
                                               Some code \<Rightarrow> code
                                             | None \<Rightarrow> [])\<rparr>
                              in (Returned (Some resp, None),
                                  if hasCache c then
                                    (case Marshal_SearchResponse js resp of
                                       Inr cacheData \<Rightarrow> cache_Set cacheKey cacheData (5 * Minute) w
                                     | Inl e \<Rightarrow> w)
                                  else w))))))"

definition GetProductDetails ::
  "env \<Rightarrow> 'p json \<Rightarrow> Client \<Rightarrow> gostring \<Rightarrow> world \<Rightarrow> ('p option \<times> go_error option) call \<times> world" where
  "GetProductDetails env js c productCode w =
     (let productCode = TrimSpace productCode
      in if productCode = [] then
           (Returned (None, Some (ErrorString ''productCode is required'')), w)
         else
           (let cacheKey = getCacheKeyProduct c productCode
            in case cached_lookup env c (Unmarshal_Product js) cacheKey w of
                 (Some product, w) \<Rightarrow> (Returned (Some product, None), w)
               | (None, w) \<Rightarrow>
                   (let params = [(str ''productCode'', [productCode])]
                    in case doRequest env c (str ''GET'') (str ''/product/detail'')
                              (Some params) None w of
                         (Pending, w) \<Rightarrow> (Pending, w)
                       | (Returned (body, Some err), w) \<Rightarrow> (Returned (None, Some err), w)
                       | (Returned (body, None), w) \<Rightarrow>
                           (case parseResponse js (Unmarshal_Product js) (zero_Product js)
                                   (case body of Some b \<Rightarrow> b | None \<Rightarrow> []) of
                              Inl err \<Rightarrow> (Returned (None, Some err), w)
                            | Inr product \<Rightarrow>
                                (Returned (Some product, None),
                                 if hasCache c then
                                   (case Marshal_Product js product of
                                      Inr cacheData \<Rightarrow> cache_Set cacheKey cacheData (5 * Minute) w
                                    | Inl e \<Rightarrow> w)
                                 else w)))))"

text \<open>
  Modelled from the spec: the cache configuration and its default, declared in the file
  of the cache (not among the sources); the default values are those that the test
  \<^verbatim>\<open>TestDefaultCacheConfig\<close> asserts.
\<close>

record CacheConfig =
  Enabled :: bool
  SearchTTL :: int
  DetailsTTL :: int

definition DefaultCacheConfig :: CacheConfig where
  "DefaultCacheConfig = \<lparr>Enabled = True, SearchTTL = 5 * Minute, DetailsTTL = 10 * Minute\<rparr>"

section \<open>A concrete setting\<close>

text \<open>
  Surroundings in which the functions can be run: the server answers every request with
  status 503, the context is never done, the clock stands at 0 and the cache is empty.
  Products are represented by their codes.
\<close>

definition example_env :: env where
  "example_env =
     \<lparr>Marshal = (\<lambda>b. Inr ''{}''),
      NewRequest = (\<lambda>method url. None),
      Encode = (\<lambda>ps. concat (map (\<lambda>(k, vs). k @ str ''='' @ concat vs) ps)),
      http_do = (\<lambda>n. Reply 503 []),
      ctx_sleep = (\<lambda>n. None),
      limiter_events = (\<lambda>n. [(0, TimerFired)]),
      rand_Float64 = (\<lambda>n. 1 / 2),
      cache_reply = (\<lambda>n key. None)\<rparr>"

definition example_json :: "gostring json" where
  "example_json =
     \<lparr>Unmarshal_apiResponse = (\<lambda>b. Inr \<lparr>Code = 200, Message = [], Result = b\<rparr>),
      Unmarshal_wrapper = (\<lambda>b. Inr \<lparr>ProductList = [str b], WrapperTotalCount = 1,
                                     TipProductCode = None\<rparr>),
      Unmarshal_Product = (\<lambda>b. Inr (str b)),
      Unmarshal_SearchResponse = (\<lambda>b. Inr \<lparr>Products = [str b], TotalCount = 1,
                                            DirectMatchCode = []\<rparr>),
      Marshal_Product = (\<lambda>p. Inr ''product''),
      Marshal_SearchResponse = (\<lambda>r. Inr ''products''),
      zero_Product = []\<rparr>"

text \<open>The same surroundings with a transport that times out: every call of the HTTP
  client fails with an error of a type that implements \<^verbatim>\<open>net.Error\<close> (as
  \<^verbatim>\<open>*url.Error\<close> does) and whose \<^verbatim>\<open>Timeout()\<close> is true.\<close>

definition timeout_env :: env where
  "timeout_env = example_env\<lparr>http_do := \<lambda>n. DoFails (OtherNetError True)\<rparr>"

section \<open>Properties of the retry policy\<close>


lemma trunc_zero_of_int [simp]: "trunc_zero (real_of_int k) = k"
  by (simp add: trunc_zero_def)

lemma float_to_int64_of_int: "is_int64 k \<Longrightarrow> float_to_int64 (real_of_int k) = k"
  by (simp add: float_to_int64_def)


lemma isTemporaryNetErr_False [simp]: "isTemporaryNetErr k = False"
  by (cases k) simp_all


lemma float_to_int64_le:
  assumes "x \<le> real_of_int m" and "- (2 ^ 63) \<le> m"
  shows "float_to_int64 x \<le> m"
proof -
  have "trunc_zero x \<le> m"
    using assms(1) by (auto simp add: trunc_zero_def floor_le_iff ceiling_le_iff)
  with assms(2) show ?thesis
    by (simp add: float_to_int64_def Let_def)
qed


text \<open>
  Claim C2, as amended. \<open>shouldRetry\<close> answers true exactly when the error is a timeout
  or a temporary network error, or the status is one of 429, 500, 502, 503 and 504. The
  error is looked at first and neither overrides the other: a status outside the set does
  not stop the retry of a timeout.
\<close>

theorem shouldRetry_error_or_status:
  "shouldRetry err statusCode =
     (isTimeoutError err \<or> isTemporaryNetworkError err \<or> statusCode \<in> {429, 500, 502, 503, 504})"
  by (cases err) (auto simp add: shouldRetry_def isTemporaryNetworkError_def isTimeoutError_def)

text \<open>Against C2 as stated: a timeout that comes with status 404 is retried, although
  status 404 alone is not.\<close>

theorem shouldRetry_timeout_404: "shouldRetry (Some (OpError True)) 404 \<and> \<not> shouldRetry None 404"
  by (simp add: shouldRetry_def isTemporaryNetworkError_def isTimeoutError_def)



section \<open>Properties of the float64 arithmetic\<close>

lemma rne_of_int [simp]: "rne (real_of_int n) = n"
  by (simp add: rne_def)

lemma round_f64_exact:
  assumes x: "x = real_of_int m * 2 powr real_of_int p"
    and m: "\<bar>m\<bar> < 2 ^ 53" and p: "- 1074 \<le> p"
  shows "round_f64 x = x"
proof (cases "x = 0")
  case True
  then show ?thesis by (simp add: round_f64_def)
next
  case False
  define E where "E = max \<lfloor>log 2 \<bar>x\<bar>\<rfloor> (- 1022)"
  have pos: "0 < \<bar>x\<bar>" using False by simp
  have "\<bar>x\<bar> = real_of_int \<bar>m\<bar> * 2 powr real_of_int p"
    by (simp add: x abs_mult)
  also have "\<dots> < 2 ^ 53 * 2 powr real_of_int p"
  proof -
    have "real_of_int \<bar>m\<bar> < real_of_int (2 ^ 53)"
      using m by (simp only: of_int_less_iff)
    then show ?thesis by simp
  qed
  also have "\<dots> = 2 powr real_of_int (53 + p)"
    by (simp add: powr_add)
  finally have "\<bar>x\<bar> < 2 powr real_of_int (53 + p)" .
  then have "log 2 \<bar>x\<bar> < real_of_int (53 + p)"
    using pos by (simp add: log_less_iff)
  then have "\<lfloor>log 2 \<bar>x\<bar>\<rfloor> < 53 + p"
    by (simp only: floor_less_iff)
  with p have E: "E - 52 \<le> p"
    by (simp add: E_def)
  define k where "k = nat (p - (E - 52))"
  have pk: "p = (E - 52) + int k"
    using E by (simp add: k_def)
  define Q where "Q = f64_quantum x"
  have q: "Q = 2 powr real_of_int (E - 52)"
    by (simp add: Q_def f64_quantum_def E_def)
  have "2 powr real_of_int p = Q * 2 ^ k"
    unfolding q by (subst pk) (simp add: powr_add powr_realpow)
  then have xq: "x = real_of_int (m * 2 ^ k) * Q"
    by (simp add: x)
  have "Q \<noteq> 0" by (simp add: q)
  with xq have "x / Q = real_of_int (m * 2 ^ k)"
    by (metis nonzero_mult_div_cancel_right)
  then have r: "rne (x / Q) = m * 2 ^ k"
    by (simp only: rne_of_int)
  have "round_f64 x = real_of_int (rne (x / Q)) * Q"
    using False by (simp add: round_f64_def Q_def)
  also have "\<dots> = real_of_int (m * 2 ^ k) * Q"
    by (simp only: r)
  also have "\<dots> = x"
    by (simp only: xq[symmetric])
  finally show ?thesis .
qed

lemma round_f64_of_int:
  assumes "\<bar>n\<bar> \<le> 2 ^ 53"
  shows "round_f64 (real_of_int n) = real_of_int n"
proof (cases "\<bar>n\<bar> < 2 ^ 53")
  case True
  show ?thesis
    by (rule round_f64_exact[of _ n 0]) (use True in simp_all)
next
  case False
  with assms have "\<bar>n\<bar> = 2 ^ 53" by simp
  then have n: "n = 2 ^ 53 \<or> n = - (2 ^ 53)" by (auto simp add: abs_if split: if_splits)
  then have "real_of_int n = real_of_int (n div 2) * 2 powr real_of_int 1"
    by auto
  moreover have "\<bar>n div 2\<bar> < 2 ^ 53" using n by auto
  ultimately show ?thesis
    by (intro round_f64_exact[of _ "n div 2" 1]) simp_all
qed

lemma rnd64_of_int:
  assumes "\<bar>n\<bar> \<le> 2 ^ 53"
  shows "rnd64 (real_of_int n) = Fin (real_of_int n)"
proof -
  have "real_of_int \<bar>n\<bar> \<le> real_of_int (2 ^ 53)"
    using assms by (simp only: of_int_le_iff)
  then have "\<bar>real_of_int n\<bar> \<le> 2 ^ 53" by simp
  also have "(2::real) ^ 53 < 2 ^ 1024" by simp
  finally have "\<bar>real_of_int n\<bar> < 2 ^ 1024" .
  then show ?thesis
    by (simp add: rnd64_def round_f64_of_int[OF assms] abs_less_iff)
qed

lemma rnd64_up: "rnd64 9007199254740995 = Fin 9007199254740996"
proof -
  have "\<lfloor>log 2 \<bar>9007199254740995\<bar>\<rfloor> = 53"
    by (subst floor_log_eq_powr_iff) simp_all
  then have q: "f64_quantum 9007199254740995 = 2"
    by (simp add: f64_quantum_def)
  have "rne (9007199254740995 / 2) = 4503599627370498"
    by (simp add: rne_def)
  then show ?thesis
    by (simp add: rnd64_def round_f64_def q)
qed

lemma rne_bounds: "\<lfloor>y\<rfloor> \<le> rne y \<and> rne y \<le> \<lfloor>y\<rfloor> + 1"
  by (simp add: rne_def Let_def)

lemma rne_mono:
  assumes "x \<le> y"
  shows "rne x \<le> rne y"
proof (cases "\<lfloor>x\<rfloor> = \<lfloor>y\<rfloor>")
  case True
  with assms show ?thesis
    by (auto simp add: rne_def Let_def)
next
  case False
  with assms have "\<lfloor>x\<rfloor> < \<lfloor>y\<rfloor>"
    by (simp add: floor_mono less_le)
  then have "\<lfloor>x\<rfloor> + 1 \<le> \<lfloor>y\<rfloor>" by simp
  with rne_bounds[of x] rne_bounds[of y] show ?thesis by linarith
qed

lemma rne_minus: "rne (- y) = - rne y"
proof (cases "y = real_of_int \<lfloor>y\<rfloor>")
  case True
  then obtain n where "y = real_of_int n" ..
  then have "- y = real_of_int (- n)" by simp
  then show ?thesis
    using \<open>y = real_of_int n\<close> by (simp only: rne_of_int)
next
  case False
  then have f: "\<lfloor>- y\<rfloor> = - \<lfloor>y\<rfloor> - 1"
    by (smt (verit) ceiling_def floor_minus ceiling_altdef)
  show ?thesis
    unfolding rne_def Let_def f
    by (auto simp add: algebra_simps)
qed

lemma f64_quantum_exp: "f64_quantum x = 2 powr real_of_int (f64_exp x - 52)"
  by (simp add: f64_quantum_def f64_exp_def)

lemma f64_quantum_pos [simp]: "0 < f64_quantum x"
  by (simp add: f64_quantum_def)

lemma f64_quantum_nonneg [simp]: "0 \<le> f64_quantum x"
  by (simp add: f64_quantum_def)

lemma f64_quantum_minus [simp]: "f64_quantum (- x) = f64_quantum x"
  by (simp add: f64_quantum_def)

lemma round_f64_minus: "round_f64 (- x) = - round_f64 x"
  by (simp add: round_f64_def rne_minus)

lemma rne_zero [simp]: "rne 0 = 0"
  using rne_of_int[of 0] by simp

lemma round_f64_eq: "round_f64 x = real_of_int (rne (x / f64_quantum x)) * f64_quantum x"
  by (simp add: round_f64_def)

lemma round_f64_nonneg:
  assumes "0 \<le> x"
  shows "0 \<le> round_f64 x"
proof -
  have "0 \<le> x / f64_quantum x"
    using assms by (intro divide_nonneg_pos) simp_all
  from rne_mono[OF this] have "0 \<le> rne (x / f64_quantum x)"
    by simp
  then show ?thesis
    unfolding round_f64_eq by (intro mult_nonneg_nonneg) simp_all
qed

lemma f64_exp_upper:
  assumes "0 < x"
  shows "x < 2 powr real_of_int (f64_exp x + 1)"
proof -
  from floor_log_eq_powr_iff[of x 2 "\<lfloor>log 2 x\<rfloor>"] assms
  have "x < 2 powr (real_of_int \<lfloor>log 2 x\<rfloor> + 1)" by simp
  also have "\<dots> \<le> 2 powr real_of_int (f64_exp x + 1)"
    using assms by (simp add: f64_exp_def)
  finally show ?thesis .
qed

lemma f64_exp_lower:
  assumes "0 < x" and "- 1022 \<le> \<lfloor>log 2 x\<rfloor>"
  shows "2 powr real_of_int (f64_exp x) \<le> x"
proof -
  from floor_log_eq_powr_iff[of x 2 "\<lfloor>log 2 x\<rfloor>"] assms(1)
  have "2 powr real_of_int \<lfloor>log 2 x\<rfloor> \<le> x" by simp
  moreover have "f64_exp x = \<lfloor>log 2 x\<rfloor>"
    using assms by (simp add: f64_exp_def)
  ultimately show ?thesis by simp
qed

lemma powr_int_add: "2 powr real_of_int a * 2 powr real_of_int b = 2 powr real_of_int (a + b)"
  by (simp add: powr_add)

lemma powr_quantum_ratio:
  "2 powr real_of_int (e + d) / 2 powr real_of_int (e - 52) = 2 powr real_of_int (d + 52)"
  by (simp add: powr_diff[symmetric])

lemma round_f64_upper:
  assumes "0 < x"
  shows "round_f64 x \<le> 2 powr real_of_int (f64_exp x + 1)"
proof -
  let ?q = "f64_quantum x"
  have "x / ?q \<le> 2 powr real_of_int (f64_exp x + 1) / ?q"
    using f64_exp_upper[OF assms] by (intro divide_right_mono) simp_all
  also have "\<dots> = 2 powr real_of_int (1 + 52)"
    unfolding f64_quantum_exp by (rule powr_quantum_ratio)
  also have "\<dots> = real_of_int (2 ^ 53)"
    by simp
  finally have "rne (x / ?q) \<le> 2 ^ 53"
    using rne_mono rne_of_int by metis
  then have "real_of_int (rne (x / ?q)) \<le> real_of_int (2 ^ 53)"
    by (simp only: of_int_le_iff)
  also have "real_of_int (2 ^ 53) = 2 powr real_of_int 53"
    by simp
  finally have "round_f64 x \<le> 2 powr real_of_int 53 * ?q"
    unfolding round_f64_eq by (intro mult_right_mono) simp_all
  also have "\<dots> = 2 powr real_of_int (f64_exp x + 1)"
    unfolding f64_quantum_exp powr_int_add by (simp add: add.commute)
  finally show ?thesis .
qed

lemma round_f64_lower:
  assumes "0 < x" and "- 1022 \<le> \<lfloor>log 2 x\<rfloor>"
  shows "2 powr real_of_int (f64_exp x) \<le> round_f64 x"
proof -
  let ?q = "f64_quantum x"
  have "real_of_int (2 ^ 52) = 2 powr real_of_int (0 + 52)"
    by simp
  also have "\<dots> = 2 powr real_of_int (f64_exp x + 0) / ?q"
    unfolding f64_quantum_exp by (rule powr_quantum_ratio[symmetric])
  also have "\<dots> \<le> x / ?q"
    using f64_exp_lower[OF assms] by (intro divide_right_mono) simp_all
  finally have "2 ^ 52 \<le> rne (x / ?q)"
    using rne_mono rne_of_int by metis
  then have "real_of_int (2 ^ 52) \<le> real_of_int (rne (x / ?q))"
    by (simp only: of_int_le_iff)
  moreover have "real_of_int (2 ^ 52) = 2 powr real_of_int 52"
    by simp
  ultimately have "2 powr real_of_int 52 * ?q \<le> round_f64 x"
    unfolding round_f64_eq by (intro mult_right_mono) simp_all
  moreover have "2 powr real_of_int 52 * ?q = 2 powr real_of_int (f64_exp x)"
    unfolding f64_quantum_exp powr_int_add by (simp add: add.commute)
  ultimately show ?thesis by simp
qed

lemma f64_exp_mono:
  assumes "0 < x" and "x \<le> y"
  shows "f64_exp x \<le> f64_exp y"
proof -
  have "log 2 x \<le> log 2 y" using assms by simp
  then have "\<lfloor>log 2 x\<rfloor> \<le> \<lfloor>log 2 y\<rfloor>" by (rule floor_mono)
  then show ?thesis
    using assms by (simp add: f64_exp_def)
qed

lemma round_f64_mono_pos:
  assumes "0 < x" and "x \<le> y"
  shows "round_f64 x \<le> round_f64 y"
proof (cases "f64_exp x = f64_exp y")
  case True
  then have q: "f64_quantum x = f64_quantum y"
    by (simp add: f64_quantum_exp)
  have "x / f64_quantum y \<le> y / f64_quantum y"
    using assms(2) by (intro divide_right_mono) simp_all
  from rne_mono[OF this] show ?thesis
    unfolding round_f64_eq q by (intro mult_right_mono) simp_all
next
  case False
  with f64_exp_mono[OF assms] have lt: "f64_exp x + 1 \<le> f64_exp y" by simp
  have ypos: "0 < y" using assms by simp
  have "- 1022 \<le> f64_exp x" by (simp add: f64_exp_def)
  with lt have "- 1022 < f64_exp y" by simp
  then have ynorm: "- 1022 \<le> \<lfloor>log 2 y\<rfloor>"
    using ypos by (simp add: f64_exp_def max_def split: if_splits)
  have "round_f64 x \<le> 2 powr real_of_int (f64_exp x + 1)"
    by (rule round_f64_upper[OF assms(1)])
  also have "\<dots> \<le> 2 powr real_of_int (f64_exp y)"
    using lt by simp
  also have "\<dots> \<le> round_f64 y"
    by (rule round_f64_lower[OF ypos ynorm])
  finally show ?thesis .
qed

lemma round_f64_zero [simp]: "round_f64 0 = 0"
  by (simp add: round_f64_def)

lemma round_f64_mono:
  assumes "x \<le> y"
  shows "round_f64 x \<le> round_f64 y"
proof -
  consider "0 < x" | "x \<le> 0" "0 \<le> y" | "y < 0" using assms by linarith
  then show ?thesis
  proof cases
    case 1
    then show ?thesis using assms by (rule round_f64_mono_pos)
  next
    case 2
    have "0 \<le> round_f64 (- x)" using 2(1) by (intro round_f64_nonneg) simp
    then have "round_f64 x \<le> 0" by (simp add: round_f64_minus)
    also have "0 \<le> round_f64 y" using 2(2) by (rule round_f64_nonneg)
    finally show ?thesis .
  next
    case 3
    then have "0 < - y" "- y \<le> - x" using assms by simp_all
    from round_f64_mono_pos[OF this] show ?thesis
      by (simp add: round_f64_minus)
  qed
qed


lemma f64_of_int_exact: "\<bar>n\<bar> \<le> 2 ^ 53 \<Longrightarrow> f64_of_int n = Fin (real_of_int n)"
  by (simp add: f64_of_int_def rnd64_of_int)

lemma f64_le_cap_to_int64:
  assumes "\<not> f64_gt v (Fin (real_of_int m))" and "0 \<le> m"
  shows "f64_to_int64 v \<le> m"
proof (cases v)
  case (Fin x)
  with assms(1) have "x \<le> real_of_int m" by simp
  then have "float_to_int64 x \<le> m"
    using assms(2) by (intro float_to_int64_le) simp_all
  with Fin show ?thesis by simp
next
  case PosInf
  with assms(1) show ?thesis by simp
qed (use assms(2) in simp_all)

lemma rnd64_exact:
  assumes "x = real_of_int m * 2 powr real_of_int p" and "\<bar>m\<bar> < 2 ^ 53" and "- 1074 \<le> p"
    and "\<bar>x\<bar> < 2 ^ 1024"
  shows "rnd64 x = Fin x"
  using assms(4) by (simp add: rnd64_def round_f64_exact[OF assms(1-3)] abs_less_iff)






lemma round_f64_two [simp]: "round_f64 2 = 2"
  using round_f64_of_int[of 2] by simp




lemma rnd64_numeral:
  "(numeral k :: int) \<le> 2 ^ 53 \<Longrightarrow> rnd64 (numeral k) = Fin (numeral k)"
  using rnd64_of_int[of "numeral k"] by simp

lemma rnd64_zero [simp]: "rnd64 0 = Fin 0"
  using rnd64_of_int[of 0] by simp

lemma rnd64_one [simp]: "rnd64 1 = Fin 1"
  using rnd64_of_int[of 1] by simp

lemma rnd64_minus_one [simp]: "rnd64 (- 1) = Fin (- 1)"
  using rnd64_of_int[of "- 1"] by simp

lemma float_to_int64_numeral:
  "(numeral k :: int) < 2 ^ 63 \<Longrightarrow> float_to_int64 (numeral k) = numeral k"
  using float_to_int64_of_int[of "numeral k"] by (simp add: is_int64_def)

lemma float_to_int64_zero [simp]: "float_to_int64 0 = 0"
  using float_to_int64_of_int[of 0] by (simp add: is_int64_def)

lemma rnd64_power_two:
  assumes "j \<le> 1023"
  shows "rnd64 (2 ^ j) = Fin (2 ^ j)"
proof (rule rnd64_exact[of _ 1 "int j"])
  show "(2::real) ^ j = real_of_int 1 * 2 powr real_of_int (int j)"
    by (simp add: powr_realpow)
  have "(2::real) ^ j < 2 ^ 1024"
    using assms by (intro power_strict_increasing) simp_all
  then show "\<bar>(2::real) ^ j\<bar> < 2 ^ 1024" by simp
qed simp_all

lemma pow_loop_f64_two:
  "j + nat (n - i) \<le> 1023 \<Longrightarrow>
     pow_loop_f64 (Fin 2) n i (Fin (2 ^ j)) = Fin (2 ^ (j + nat (n - i)))"
proof (induction "nat (n - i)" arbitrary: i j)
  case 0
  then have "\<not> i < n" by simp
  then show ?case
    by (subst pow_loop_f64.simps) simp
next
  case (Suc k)
  then have lt: "i < n" and k: "k = nat (n - (i + 1))" by simp_all
  from Suc.prems lt have j: "Suc j + nat (n - (i + 1)) \<le> 1023" by simp
  then have "Suc j \<le> 1023" by simp
  from rnd64_power_two[OF this] have "f64_mul (Fin (2 ^ j)) (Fin 2) = Fin (2 ^ Suc j)"
    by (simp add: mult.commute)
  then have "pow_loop_f64 (Fin 2) n i (Fin (2 ^ j))
               = pow_loop_f64 (Fin 2) n (i + 1) (Fin (2 ^ Suc j))"
    using lt by (subst pow_loop_f64.simps) (simp del: f64_mul.simps power_Suc)
  also have "\<dots> = Fin (2 ^ (Suc j + nat (n - (i + 1))))"
    using k j by (intro Suc.hyps(1)) simp_all
  also have "Suc j + nat (n - (i + 1)) = j + nat (n - i)"
    using lt by simp
  finally show ?case .
qed

lemma pow_f64_two:
  assumes "0 \<le> n" and "n \<le> 1023"
  shows "pow_f64 (Fin 2) (f64_of_int n) = Fin (2 ^ nat n)"
proof -
  have "\<bar>n\<bar> \<le> 2 ^ 53" using assms by simp
  then have "f64_of_int n = Fin (real_of_int n)" by (rule f64_of_int_exact)
  moreover have "float_to_int64 (real_of_int n) = n"
    using assms by (intro float_to_int64_of_int) (simp add: is_int64_def)
  moreover have "pow_loop_f64 (Fin 2) n 0 (Fin (2 ^ 0)) = Fin (2 ^ (0 + nat (n - 0)))"
    using assms by (intro pow_loop_f64_two) simp
  ultimately show ?thesis
    by (simp add: pow_f64_def)
qed

text \<open>On the inputs of claim C7 the float64 arithmetic rounds nowhere, for every maximal
  delay from \<open>- 2\<^sup>5\<^sup>3\<close> on.\<close>

lemma calculateBackoff_f64_growth:
  assumes I: "InitialBackoff c = 100 * Millisecond" and Mu: "Multiplier c = 2"
    and J: "Jitter c = 0" and M: "- (2 ^ 53) \<le> MaxBackoff c" and k: "0 \<le> k" "k \<le> 2"
  shows "calculateBackoff_f64 c k draw = min (100 * Millisecond * 2 ^ nat k) (MaxBackoff c)"
proof -
  define b where "b = 100 * Millisecond * 2 ^ nat k"
  have "nat k \<le> 2" using k by simp
  then have "(2::int) ^ nat k \<le> 2 ^ 2" by (intro power_increasing) simp_all
  then have b4: "0 \<le> b" "b \<le> 400000000"
    by (simp_all add: b_def Millisecond_def)
  have i: "f64_of_int (100 * Millisecond) = Fin 100000000"
    by (simp add: f64_of_int_def rnd64_numeral Millisecond_def)
  have p: "pow_f64 (Fin 2) (f64_of_int k) = Fin (2 ^ nat k)"
    using k by (intro pow_f64_two) simp_all
  have "rnd64 (real_of_int b) = Fin (real_of_int b)"
    using b4 by (intro rnd64_of_int) simp
  moreover have "real_of_int b = 100000000 * 2 ^ nat k"
    by (simp add: b_def Millisecond_def)
  ultimately have m: "f64_mul (Fin 100000000) (Fin (2 ^ nat k)) = Fin (real_of_int b)"
    by simp
  have conv: "float_to_int64 (real_of_int b) = b"
    using b4 by (intro float_to_int64_of_int) (simp add: is_int64_def)
  have base: "calculateBackoff_f64 c k draw
      = f64_to_int64 (if f64_gt (Fin (real_of_int b)) (f64_of_int (MaxBackoff c))
                      then f64_of_int (MaxBackoff c) else Fin (real_of_int b))"
    by (simp add: calculateBackoff_f64_def Let_def I Mu J i p m del: f64_mul.simps)
  show ?thesis
  proof (cases "MaxBackoff c \<le> 2 ^ 53")
    case True
    with M have "\<bar>MaxBackoff c\<bar> \<le> 2 ^ 53" by simp
    then have cap: "f64_of_int (MaxBackoff c) = Fin (real_of_int (MaxBackoff c))"
      by (rule f64_of_int_exact)
    have "is_int64 (MaxBackoff c)" using True M by (simp add: is_int64_def)
    from float_to_int64_of_int[OF this] conv show ?thesis
      unfolding base cap b_def[symmetric] by (simp add: min_def)
  next
    case False
    then have big: "(2::int) ^ 53 \<le> MaxBackoff c" by simp
    then have "real_of_int (2 ^ 53) \<le> real_of_int (MaxBackoff c)"
      by (simp only: of_int_le_iff)
    from round_f64_mono[OF this] round_f64_of_int[of "2 ^ 53"]
    have r: "2 ^ 53 \<le> round_f64 (real_of_int (MaxBackoff c))" by simp
    have "real_of_int b \<le> real_of_int 400000000"
      using b4(2) by (simp only: of_int_le_iff)
    then have br: "real_of_int b < round_f64 (real_of_int (MaxBackoff c))"
      using r by simp
    have "\<not> f64_gt (Fin (real_of_int b)) (f64_of_int (MaxBackoff c))"
      using br r by (simp add: f64_of_int_def rnd64_def Let_def)
    moreover have "b \<le> MaxBackoff c" using b4(2) big by simp
    ultimately show ?thesis
      unfolding base b_def[symmetric] using conv by (simp add: min_def)
  qed
qed




text \<open>
  Claim C10, as amended. With a maximal delay between 0 and \<open>2\<^sup>5\<^sup>3\<close> nanoseconds (the
  durations that a float64 holds exactly) the delay returned is never above it, whatever
  the configuration otherwise, the attempt index and the draw, also where the
  computation overflows or yields NaN: the cap comes after the jitter.
\<close>

theorem calculateBackoff_capped:
  assumes "0 \<le> MaxBackoff c" and "MaxBackoff c \<le> 2 ^ 53"
  shows "calculateBackoff_f64 c attempt draw \<le> MaxBackoff c"
proof -
  have cap: "f64_of_int (MaxBackoff c) = Fin (real_of_int (MaxBackoff c))"
    using assms by (intro f64_of_int_exact) simp
  have i64: "is_int64 (MaxBackoff c)"
    using assms by (simp add: is_int64_def)
  show ?thesis
    unfolding calculateBackoff_f64_def Let_def cap
    using assms(1) float_to_int64_of_int[OF i64]
    by (auto intro: f64_le_cap_to_int64)
qed

theorem calculateBackoff_capped_witness:
  "0 \<le> MaxBackoff DefaultRetryConfig \<and> MaxBackoff DefaultRetryConfig \<le> 2 ^ 53
   \<and> calculateBackoff_f64 DefaultRetryConfig 10 (3 / 4) \<le> MaxBackoff DefaultRetryConfig"
  using calculateBackoff_capped[of DefaultRetryConfig 10 "3 / 4"]
  by (simp add: DefaultRetryConfig_def Second_def Millisecond_def)

text \<open>Against C10 as stated: a maximal delay of \<open>2\<^sup>5\<^sup>3 + 3\<close> ns becomes
  \<open>2\<^sup>5\<^sup>3 + 4\<close> when converted to float64, and that is what is returned once the
  backoff exceeds it: one nanosecond more than the maximal delay.\<close>

theorem calculateBackoff_above_cap:
  "MaxBackoff \<lparr>MaxRetries = 3, InitialBackoff = 1, MaxBackoff = 9007199254740995,
       Multiplier = 2, Jitter = 0\<rparr>
     < calculateBackoff_f64 \<lparr>MaxRetries = 3, InitialBackoff = 1, MaxBackoff = 9007199254740995,
         Multiplier = 2, Jitter = 0\<rparr> 60 0"
proof -
  have p: "pow_f64 (Fin 2) (f64_of_int 60) = Fin 1152921504606846976"
    using pow_f64_two[of 60] by simp
  have one: "f64_of_int 1 = Fin 1"
    by (simp add: f64_of_int_def)
  have m: "f64_mul (Fin 1) (Fin 1152921504606846976) = Fin 1152921504606846976"
    using rnd64_power_two[of 60] by simp
  have cap: "f64_of_int 9007199254740995 = Fin 9007199254740996"
    using rnd64_up by (simp add: f64_of_int_def)
  have conv: "float_to_int64 9007199254740996 = 9007199254740996"
    by (rule float_to_int64_numeral) simp
  have "calculateBackoff_f64 \<lparr>MaxRetries = 3, InitialBackoff = 1, MaxBackoff = 9007199254740995,
         Multiplier = 2, Jitter = 0\<rparr> 60 0 = 9007199254740996"
    by (simp add: calculateBackoff_f64_def Let_def p one m cap conv del: f64_mul.simps)
  then show ?thesis by simp
qed

section \<open>Properties of the rate limiter\<close>

lemma refill_fields [simp]:
  "maxTokens (refill now r) = maxTokens r"
  "refillRate (refill now r) = refillRate r"
  "lastRefill (refill now r) = now"
  by (simp_all add: refill_def Let_def)

lemma refill_tokens:
  "tokens (refill now r) =
     min (maxTokens r) (tokens r + Seconds (now - lastRefill r) * refillRate r)"
  by (simp add: refill_def Let_def min_def)

lemma Seconds_nonneg: "t \<le> now \<Longrightarrow> 0 \<le> Seconds (now - t)"
  by (simp add: Seconds_def)

lemma refill_tokens_mono:
  assumes "limiter_inv r" and "0 \<le> refillRate r" and "lastRefill r \<le> now"
  shows "tokens r \<le> tokens (refill now r)"
proof -
  have "0 \<le> Seconds (now - lastRefill r) * refillRate r"
    using assms(2,3) by (simp add: Seconds_nonneg)
  with assms(1) show ?thesis
    by (simp add: refill_tokens limiter_inv_def)
qed

lemma refill_inv:
  assumes "limiter_inv r" and "0 \<le> refillRate r" and "lastRefill r \<le> now"
  shows "limiter_inv (refill now r)"
proof -
  have "tokens r \<le> tokens (refill now r)"
    using assms by (rule refill_tokens_mono)
  moreover have "tokens (refill now r) \<le> maxTokens r"
    by (simp add: refill_tokens)
  ultimately show ?thesis
    using assms(1) by (simp add: limiter_inv_def)
qed

lemma Wait_fields:
  "maxTokens (snd (Wait events r)) = maxTokens r \<and> refillRate (snd (Wait events r)) = refillRate r"
proof (induction events arbitrary: r)
  case Nil
  show ?case by simp
next
  case (Cons ev events)
  obtain now sel where ev: "ev = (now, sel)" by (cases ev)
  show ?case
    using Cons.IH[of "refill now r"]
    by (simp add: ev Let_def split: select_case.split)
qed

lemma Wait_inv:
  assumes "limiter_inv r" and "0 \<le> refillRate r" and "clock_mono (lastRefill r) (map fst events)"
  shows "limiter_inv (snd (Wait events r))"
  using assms
proof (induction events arbitrary: r)
  case Nil
  then show ?case by simp
next
  case (Cons ev events)
  obtain now sel where ev: "ev = (now, sel)" by (cases ev)
  from Cons.prems ev have le: "lastRefill r \<le> now" and later: "clock_mono now (map fst events)"
    by simp_all
  have inv: "limiter_inv (refill now r)"
    using Cons.prems(1,2) le by (rule refill_inv)
  show ?case
  proof (cases "tokens (refill now r) \<ge> 1")
    case True
    with inv show ?thesis
      by (simp add: ev Let_def limiter_inv_def)
  next
    case False
    show ?thesis
    proof (cases sel)
      case (CtxDone e)
      with False inv show ?thesis by (simp add: ev Let_def)
    next
      case TimerFired
      have "limiter_inv (snd (Wait events (refill now r)))"
        using inv Cons.prems(2) later by (intro Cons.IH) simp_all
      with False TimerFired show ?thesis by (simp add: ev Let_def)
    qed
  qed
qed

lemma NewRateLimiter_inv: "0 \<le> rps \<Longrightarrow> limiter_inv (NewRateLimiter rps now)"
  by (simp add: NewRateLimiter_def limiter_inv_def)

lemma clock_mono_take: "clock_mono t ts \<Longrightarrow> clock_mono t (take n ts)"
proof (induction ts arbitrary: t n)
  case Nil
  then show ?case by simp
next
  case (Cons a ts)
  then show ?case by (cases n) simp_all
qed

lemma refills_tokens_mono:
  assumes "limiter_inv r" and "0 \<le> refillRate r" and "clock_mono (lastRefill r) ts"
  shows "tokens r \<le> tokens (refills ts r)"
  using assms
proof (induction ts arbitrary: r)
  case Nil
  then show ?case by simp
next
  case (Cons now ts)
  then have le: "lastRefill r \<le> now" and later: "clock_mono now ts" by simp_all
  have "tokens r \<le> tokens (refill now r)"
    using Cons.prems(1,2) le by (rule refill_tokens_mono)
  also have "\<dots> \<le> tokens (refills ts (refill now r))"
    using refill_inv[OF Cons.prems(1,2) le] Cons.prems(2) later
    by (intro Cons.IH) simp_all
  finally show ?case by simp
qed

lemma Wait_cancelled_refills:
  assumes "Wait events r = (Returned (Some err), r')"
  shows "(\<exists>e. err = ctx_Err e)
       \<and> (\<exists>n\<le>length events. r' = refills (map fst (take n events)) r) \<and> tokens r' < 1"
  using assms
proof (induction events arbitrary: r)
  case Nil
  then show ?case by simp
next
  case (Cons ev events)
  obtain now sel where ev: "ev = (now, sel)" by (cases ev)
  from Cons.prems ev have low: "\<not> tokens (refill now r) \<ge> 1"
    by (auto simp add: Let_def split: if_splits)
  show ?case
  proof (cases sel)
    case (CtxDone e)
    with Cons.prems ev low have "err = ctx_Err e" and r': "r' = refill now r"
      by (simp_all add: Let_def)
    moreover have "r' = refills (map fst (take 1 (ev # events))) r"
      by (simp add: ev r')
    ultimately show ?thesis
      using low by (intro conjI exI[of _ e] exI[of _ 1]) simp_all
  next
    case TimerFired
    with Cons.prems ev low have "Wait events (refill now r) = (Returned (Some err), r')"
      by (simp add: Let_def)
    from Cons.IH[OF this] obtain e n where e: "err = ctx_Err e" and n: "n \<le> length events"
      and r': "r' = refills (map fst (take n events)) (refill now r)" and t: "tokens r' < 1"
      by blast
    have "r' = refills (map fst (take (Suc n) (ev # events))) r"
      by (simp add: ev r')
    with e n t show ?thesis
      by (intro conjI exI[of _ e] exI[of _ "Suc n"]) simp_all
  qed
qed

lemma Wait_cancelled_when_starved:
  assumes "\<forall>ev\<in>set pre. snd ev = TimerFired"
    and "starved (map fst pre @ [now]) r"
  shows "Wait (pre @ (now, CtxDone e) # post) r
           = (Returned (Some (ctx_Err e)), refills (map fst pre @ [now]) r)"
  using assms
proof (induction pre arbitrary: r)
  case Nil
  then show ?case by (simp add: Let_def)
next
  case (Cons ev pre)
  obtain t sel where ev: "ev = (t, sel)" by (cases ev)
  from Cons.prems(1) ev have sel: "sel = TimerFired" by simp
  from Cons.prems(2) ev have low: "tokens (refill t r) < 1"
    and rest: "starved (map fst pre @ [now]) (refill t r)"
    by simp_all
  from Cons.prems(1) have pre: "\<forall>ev\<in>set pre. snd ev = TimerFired" by simp
  from Cons.IH[OF pre rest] low show ?case
    by (simp add: ev sel Let_def)
qed

text \<open>
  Claim C3. A call of \<^verbatim>\<open>Wait\<close> that is waiting for a token (less than one token after
  each refill so far) when the context is done returns the error of the context, be it
  cancellation or the deadline, and leaves the bucket as the refills at the clock
  readings alone make it. And whenever \<^verbatim>\<open>Wait\<close> returns an error, it is an error of
  the context and no token was taken on the way: the bucket is the result of refills
  only, holds less than one token, and, with the invariant of the bucket, a refill rate
  that is not negative and a clock that does not go back, not fewer tokens than at the
  start of the call.
\<close>

theorem Wait_cancelled_takes_no_token:
  "((\<forall>ev\<in>set pre. snd ev = TimerFired) \<and> starved (map fst pre @ [now]) r
      \<longrightarrow> Wait (pre @ (now, CtxDone e) # post) r
            = (Returned (Some (ctx_Err e)), refills (map fst pre @ [now]) r))
   \<and> (Wait events r = (Returned (Some err), r')
      \<longrightarrow> (\<exists>e. err = ctx_Err e)
          \<and> (\<exists>n\<le>length events. r' = refills (map fst (take n events)) r)
          \<and> tokens r' < 1
          \<and> (limiter_inv r \<and> 0 \<le> refillRate r \<and> clock_mono (lastRefill r) (map fst events)
               \<longrightarrow> tokens r \<le> tokens r'))"
proof (intro conjI impI)
  assume "(\<forall>ev\<in>set pre. snd ev = TimerFired) \<and> starved (map fst pre @ [now]) r"
  then show "Wait (pre @ (now, CtxDone e) # post) r
           = (Returned (Some (ctx_Err e)), refills (map fst pre @ [now]) r)"
    by (intro Wait_cancelled_when_starved) simp_all
next
  assume run: "Wait events r = (Returned (Some err), r')"
  note a = Wait_cancelled_refills[OF run]
  from a show "\<exists>e. err = ctx_Err e" by blast
  from a show "\<exists>n\<le>length events. r' = refills (map fst (take n events)) r" by blast
  from a show "tokens r' < 1" by blast
  from a obtain n where r': "r' = refills (map fst (take n events)) r" by blast
  assume h: "limiter_inv r \<and> 0 \<le> refillRate r \<and> clock_mono (lastRefill r) (map fst events)"
  then have "clock_mono (lastRefill r) (map fst (take n events))"
    using clock_mono_take[of "lastRefill r" "map fst events" n] by (simp add: take_map)
  with h show "tokens r \<le> tokens r'"
    unfolding r' by (intro refills_tokens_mono) simp_all
qed

theorem Wait_cancelled_takes_no_token_witness:
  "Wait ([(10 * Millisecond, TimerFired)] @ (50 * Millisecond, CtxDone CtxDeadlineExceeded)
           # [(60 * Millisecond, TimerFired)])
        \<lparr>tokens = 0, maxTokens = 10, refillRate = 10, lastRefill = 0\<rparr>
     = (Returned (Some DeadlineExceeded),
        \<lparr>tokens = 1 / 2, maxTokens = 10, refillRate = 10, lastRefill = 50 * Millisecond\<rparr>)
   \<and> tokens \<lparr>tokens = 0, maxTokens = 10, refillRate = 10, lastRefill = 0\<rparr>
        \<le> tokens \<lparr>tokens = 1 / 2, maxTokens = 10, refillRate = 10,
                  lastRefill = 50 * Millisecond\<rparr>"
proof -
  let ?r = "\<lparr>tokens = 0, maxTokens = 10, refillRate = 10, lastRefill = 0\<rparr>"
  let ?r' = "\<lparr>tokens = 1 / 2, maxTokens = 10, refillRate = 10,
               lastRefill = 50 * Millisecond\<rparr>"
  let ?pre = "[(10 * Millisecond, TimerFired)]"
  let ?post = "[(60 * Millisecond, TimerFired)]"
  have pre: "\<forall>ev\<in>set ?pre. snd ev = TimerFired" by simp
  have st: "starved (map fst ?pre @ [50 * Millisecond]) ?r"
    by (simp add: refill_def Let_def Seconds_def Millisecond_def)
  have rf: "refills (map fst ?pre @ [50 * Millisecond]) ?r = ?r'"
    by (simp add: refill_def Let_def Seconds_def Millisecond_def)
  have inv: "limiter_inv ?r" by (simp add: limiter_inv_def)
  have mono: "clock_mono (lastRefill ?r)
     (map fst (?pre @ (50 * Millisecond, CtxDone CtxDeadlineExceeded) # ?post))"
    by (simp add: Millisecond_def)
  note t = Wait_cancelled_takes_no_token[of ?pre "50 * Millisecond" ?r CtxDeadlineExceeded ?post
      "?pre @ (50 * Millisecond, CtxDone CtxDeadlineExceeded) # ?post" DeadlineExceeded ?r']
  from t[THEN conjunct1, rule_format, OF conjI[OF pre st]] have run:
    "Wait (?pre @ (50 * Millisecond, CtxDone CtxDeadlineExceeded) # ?post) ?r
       = (Returned (Some DeadlineExceeded), ?r')"
    by (simp only: rf ctx_Err.simps)
  have rate: "0 \<le> refillRate ?r" by simp
  from t[THEN conjunct2, rule_format, OF run] inv rate mono have "tokens ?r \<le> tokens ?r'"
    by blast
  with run show ?thesis by blast
qed

text \<open>
  Claim C5. A rate limiter made for a positive rate satisfies \<open>0 \<le> tokens \<le> maxTokens\<close>,
  and every call of \<^verbatim>\<open>Wait\<close> on a bucket of that rate that satisfies the invariant
  leaves one that does, however the call ends and as long as the monotonic clock does not
  go back; the rate stays what it was.
\<close>

theorem limiter_invariant:
  assumes "0 < requestsPerSecond"
  shows "limiter_inv (NewRateLimiter requestsPerSecond t0)
       \<and> refillRate (NewRateLimiter requestsPerSecond t0) = requestsPerSecond
       \<and> (\<forall>r events.
             limiter_inv r \<and> refillRate r = requestsPerSecond
             \<and> clock_mono (lastRefill r) (map fst events)
             \<longrightarrow> limiter_inv (snd (Wait events r))
                 \<and> refillRate (snd (Wait events r)) = requestsPerSecond)"
  using assms
  by (auto simp add: NewRateLimiter_inv Wait_fields intro: Wait_inv) (simp add: NewRateLimiter_def)

theorem limiter_invariant_witness:
  "(0::real) < 5
   \<and> limiter_inv (NewRateLimiter 5 0)
   \<and> clock_mono (lastRefill (NewRateLimiter 5 0))
        (map fst [(200 * Millisecond, TimerFired), (300 * Millisecond, TimerFired)])
   \<and> limiter_inv (snd (Wait [(200 * Millisecond, TimerFired), (300 * Millisecond, TimerFired)]
                           (NewRateLimiter 5 0)))"
proof -
  have pos: "(0::real) < 5" by simp
  have mono: "clock_mono (lastRefill (NewRateLimiter 5 0))
        (map fst [(200 * Millisecond, TimerFired), (300 * Millisecond, TimerFired)])"
    by (simp add: NewRateLimiter_def Millisecond_def)
  have rate: "refillRate (NewRateLimiter 5 0) = 5"
    by (simp add: NewRateLimiter_def)
  from limiter_invariant[OF pos, of 0] pos mono rate show ?thesis
    by blast
qed

section \<open>Properties of the client\<close>

lemma shouldRetry_not_net:
  "as_net_error e = None \<Longrightarrow>
     shouldRetry (Some e) st = (st = 429 \<or> st = 500 \<or> st = 502 \<or> st = 503 \<or> st = 504)"
  by (simp add: shouldRetry_def isTemporaryNetworkError_def isTimeoutError_def)

lemma executeRequest_result_cong:
  "length (http_log v) = length (http_log w) \<Longrightarrow>
     fst (executeRequest env c method path params body v)
       = fst (executeRequest env c method path params body w)"
  by (simp add: executeRequest_def Let_def split: sum.splits option.splits http_reply.splits)

lemma executeRequest_retryable:
  assumes "attempt_retried env c method path params body w"
  shows "\<exists>e st entry.
           executeRequest env c method path params body w
             = ((None, st, Some e), w\<lparr>http_log := http_log w @ [entry]\<rparr>)
           \<and> shouldRetry (Some e) st"
  using assms
  unfolding attempt_retried_def executeRequest_def Let_def
  by (auto simp add: shouldRetry_not_net split: sum.splits option.splits http_reply.splits if_splits)

lemma waits_granted_Suc:
  assumes "waits_granted env r k (Suc n)"
  obtains r' where "Wait (limiter_events env k) r = (Returned None, r')"
    and "waits_granted env r' (Suc k) n"
  using assms
  by (auto split: prod.splits call.splits option.splits)

lemma doRequest_loop_step:
  assumes le: "attempt \<le> MaxRetries (retryConfig c)"
    and S: "\<And>k. ctx_sleep env k = None"
    and W: "Wait (limiter_events env (wait_calls w)) (limiter w) = (Returned None, r')"
    and R: "\<And>v. attempt_retried env c method path params body v"
  shows "\<exists>w3 e st.
           doRequest_loop env c method path params body cacheKey attempt lastErr w
             = doRequest_loop env c method path params body cacheKey (attempt + 1) (Some e) w3
           \<and> limiter w3 = r' \<and> wait_calls w3 = Suc (wait_calls w)
           \<and> length (http_log w3) = Suc (length (http_log w))
           \<and> (\<forall>v. length (http_log v) = length (http_log w) \<longrightarrow>
                 fst (executeRequest env c method path params body v) = (None, st, Some e))"
proof -
  define w1 where "w1 = (if attempt > 0
     then w\<lparr>sleeps := sleeps w @ [calculateBackoff_f64 (retryConfig c) (attempt - 1)
                                      (rand_Float64 env (length (sleeps w)))]\<rparr>
     else w)"
  define w2 where "w2 = w1\<lparr>limiter := r', wait_calls := Suc (wait_calls w1)\<rparr>"
  have sl: "(if attempt > 0
             then sleep env (calculateBackoff_f64 (retryConfig c) (attempt - 1)
                               (rand_Float64 env (length (sleeps w)))) w
             else (None, w)) = (None, w1)"
    by (simp add: sleep_def S w1_def)
  have w1: "limiter w1 = limiter w" "wait_calls w1 = wait_calls w" "http_log w1 = http_log w"
    by (simp_all add: w1_def)
  have wt: "rateLimiter_Wait env w1 = (Returned None, w2)"
    by (simp add: rateLimiter_Wait_def w1 W w2_def)
  from executeRequest_retryable[OF R[of w2]] obtain e st entry where
    ex: "executeRequest env c method path params body w2
           = ((None, st, Some e), w2\<lparr>http_log := http_log w2 @ [entry]\<rparr>)"
    and sr: "shouldRetry (Some e) st"
    by blast
  define w3 where "w3 = w2\<lparr>http_log := http_log w2 @ [entry]\<rparr>"
  have "doRequest_loop env c method path params body cacheKey attempt lastErr w
          = doRequest_loop env c method path params body cacheKey (attempt + 1) (Some e) w3"
    by (subst doRequest_loop.simps) (simp add: le sl wt ex sr w3_def)
  moreover have "limiter w3 = r'" "wait_calls w3 = Suc (wait_calls w)"
    "length (http_log w3) = Suc (length (http_log w))"
    by (simp_all add: w3_def w2_def w1)
  moreover have "fst (executeRequest env c method path params body v) = (None, st, Some e)"
    if "length (http_log v) = length (http_log w)" for v
  proof -
    have "length (http_log v) = length (http_log w2)"
      using that by (simp add: w2_def w1)
    from executeRequest_result_cong[OF this] ex show ?thesis by simp
  qed
  ultimately show ?thesis by blast
qed

lemma doRequest_loop_exhausts:
  assumes R: "\<And>v. attempt_retried env c method path params body v"
    and S: "\<And>k. ctx_sleep env k = None"
  shows "int n = MaxRetries (retryConfig c) + 1 - attempt \<Longrightarrow>
         waits_granted env (limiter w) (wait_calls w) n \<Longrightarrow>
         \<exists>w' e'. doRequest_loop env c method path params body cacheKey attempt lastErr w
                    = (Returned (None, Some (Wrapped ''max retries exceeded'' e')), w')
             \<and> length (http_log w') = length (http_log w) + n
             \<and> (n = 0 \<longrightarrow> e' = lastErr)
             \<and> (0 < n \<longrightarrow>
                  (\<forall>v. Suc (length (http_log v)) = length (http_log w) + n \<longrightarrow>
                     snd (snd (fst (executeRequest env c method path params body v))) = e'))"
proof (induction n arbitrary: attempt lastErr w)
  case 0
  then have "\<not> attempt \<le> MaxRetries (retryConfig c)" by simp
  then show ?case
    by (subst doRequest_loop.simps) simp
next
  case (Suc n)
  from Suc.prems(1) have le: "attempt \<le> MaxRetries (retryConfig c)" by simp
  from Suc.prems(2) obtain r' where
    W: "Wait (limiter_events env (wait_calls w)) (limiter w) = (Returned None, r')"
    and G: "waits_granted env r' (Suc (wait_calls w)) n"
    by (rule waits_granted_Suc)
  from doRequest_loop_step[OF le S W R, of cacheKey lastErr] obtain w3 e st where
    step: "doRequest_loop env c method path params body cacheKey attempt lastErr w
             = doRequest_loop env c method path params body cacheKey (attempt + 1) (Some e) w3"
    and w3: "limiter w3 = r'" "wait_calls w3 = Suc (wait_calls w)"
      "length (http_log w3) = Suc (length (http_log w))"
    and ex: "\<And>v. length (http_log v) = length (http_log w) \<Longrightarrow>
                 fst (executeRequest env c method path params body v) = (None, st, Some e)"
    by blast
  have n: "int n = MaxRetries (retryConfig c) + 1 - (attempt + 1)"
    using Suc.prems(1) by simp
  have G3: "waits_granted env (limiter w3) (wait_calls w3) n"
    using G by (simp add: w3)
  from Suc.IH[OF n G3, of "Some e"] obtain w' e' where
    res: "doRequest_loop env c method path params body cacheKey (attempt + 1) (Some e) w3
            = (Returned (None, Some (Wrapped ''max retries exceeded'' e')), w')"
    and len: "length (http_log w') = length (http_log w3) + n"
    and e0: "n = 0 \<longrightarrow> e' = Some e"
    and en: "0 < n \<longrightarrow>
               (\<forall>v. Suc (length (http_log v)) = length (http_log w3) + n \<longrightarrow>
                  snd (snd (fst (executeRequest env c method path params body v))) = e')"
    by blast
  have last: "snd (snd (fst (executeRequest env c method path params body v))) = e'"
    if v: "Suc (length (http_log v)) = length (http_log w) + Suc n" for v
  proof (cases "n = 0")
    case True
    with v have "length (http_log v) = length (http_log w)" by simp
    from ex[OF this] e0 True show ?thesis by simp
  next
    case False
    with v en show ?thesis by (simp add: w3)
  qed
  show ?case
    using step res len last by (simp add: w3)
qed

text \<open>Where the code does retry every attempt (the server answers each with one of the
  five statuses), four requests go out and the error is \<^verbatim>\<open>max retries exceeded\<close>.\<close>

lemma doRequest_status_retries:
  assumes M: "MaxRetries (retryConfig c) = 3"
    and R: "\<forall>v. attempt_retried env c method path params body v"
    and S: "\<forall>k. ctx_sleep env k = None"
    and G: "waits_granted env (limiter w) (wait_calls w) 4"
    and C: "\<not> (method = str ''GET'' \<and> hasCache c)
            \<or> cache_reply env (length (cache_gets w)) (buildCacheKey env c method path params)
                = None"
  shows "\<exists>w' e. doRequest env c method path params body w
                   = (Returned (None, Some (Wrapped ''max retries exceeded'' (Some e))), w')
            \<and> length (http_log w') = length (http_log w) + 4
            \<and> (\<forall>v. length (http_log v) = length (http_log w) + 3 \<longrightarrow>
                   snd (snd (fst (executeRequest env c method path params body v))) = Some e)"
proof -
  have n: "int 4 = MaxRetries (retryConfig c) + 1 - 0"
    using M by simp
  obtain w0 cacheKey where
    start: "doRequest env c method path params body w
              = doRequest_loop env c method path params body cacheKey 0 None w0"
    and w0: "limiter w0 = limiter w" "wait_calls w0 = wait_calls w" "http_log w0 = http_log w"
  proof (cases "method = str ''GET'' \<and> hasCache c")
    case True
    with C have "doRequest env c method path params body w
        = doRequest_loop env c method path params body
            (buildCacheKey env c method path params) 0 None
            (w\<lparr>cache_gets := cache_gets w @ [buildCacheKey env c method path params]\<rparr>)"
      by (simp add: doRequest_def cache_Get_def Let_def)
    then show ?thesis by (rule that) simp_all
  next
    case False
    then have "doRequest env c method path params body w
        = doRequest_loop env c method path params body [] 0 None w"
      by (auto simp add: doRequest_def)
    then show ?thesis by (rule that) simp_all
  qed
  have G0: "waits_granted env (limiter w0) (wait_calls w0) 4"
    using G by (simp add: w0)
  from doRequest_loop_exhausts[of env c "method" "path" params body 4 0 w0 cacheKey None,
      OF R[rule_format] S[rule_format] n G0]
  obtain w' e' where
    res: "doRequest_loop env c method path params body cacheKey 0 None w0
            = (Returned (None, Some (Wrapped ''max retries exceeded'' e')), w')"
    and len: "length (http_log w') = length (http_log w0) + 4"
    and last: "\<forall>v. Suc (length (http_log v)) = length (http_log w0) + 4 \<longrightarrow>
                 snd (snd (fst (executeRequest env c method path params body v))) = e'"
    by auto
  have "e' \<noteq> None"
  proof -
    define v where "v = w\<lparr>http_log := http_log w @ replicate 3 ([], [], None)\<rparr>"
    have "Suc (length (http_log v)) = length (http_log w0) + 4"
      by (simp add: v_def w0)
    with last have "snd (snd (fst (executeRequest env c method path params body v))) = e'"
      by blast
    moreover from R have "attempt_retried env c method path params body v" by blast
    ultimately show ?thesis
      by (auto simp add: attempt_retried_def split: prod.splits)
  qed
  then obtain e where e: "e' = Some e" by blast
  have "\<forall>v. length (http_log v) = length (http_log w) + 3 \<longrightarrow>
          snd (snd (fst (executeRequest env c method path params body v))) = Some e"
    using last by (simp add: w0 e)
  with start res len show ?thesis
    by (simp add: w0 e)
qed

lemma shouldRetry_wrapped: "shouldRetry (Some (Wrapped msg e)) 0 = False"
  by (simp add: shouldRetry_not_net)

lemma doRequest_transport_error_once:
  assumes D: "http_do env (length (http_log w)) = DoFails e"
    and N: "\<And>u. NewRequest env method u = None"
    and B: "body = None"
    and W: "Wait (limiter_events env (wait_calls w)) (limiter w) = (Returned None, r')"
    and C: "\<not> (method = str ''GET'' \<and> hasCache c)"
    and M: "0 \<le> MaxRetries (retryConfig c)"
  shows "fst (doRequest env c method path params body w)
           = Returned (None, Some (Wrapped ''request failed'' (Some e)))
       \<and> length (http_log (snd (doRequest env c method path params body w)))
           = Suc (length (http_log w))"
proof -
  have "doRequest env c method path params body w
      = doRequest_loop env c method path params body [] 0 None w"
    using C by (auto simp add: doRequest_def)
  moreover have wt: "rateLimiter_Wait env w
      = (Returned None, w\<lparr>limiter := r', wait_calls := Suc (wait_calls w)\<rparr>)"
    by (simp add: rateLimiter_Wait_def W)
  have "\<exists>entry. doRequest_loop env c method path params body [] 0 None w
      = (Returned (None, Some (Wrapped ''request failed'' (Some e))),
         w\<lparr>limiter := r', wait_calls := Suc (wait_calls w),
           http_log := http_log w @ [entry]\<rparr>)"
    by (subst doRequest_loop.simps)
       (auto simp add: M wt executeRequest_def Let_def D N B shouldRetry_wrapped split: option.split)
  ultimately show ?thesis
    by auto
qed

text \<open>
  Claim C1, on the code. With \<open>MaxRetries = 3\<close> and a transport that times out on every
  attempt (an error that \<^verbatim>\<open>shouldRetry\<close> accepts), \<^verbatim>\<open>doRequest\<close> hands one request
  to the HTTP client and returns the wrapped error \<^verbatim>\<open>request failed\<close>: the error has
  been wrapped before it is classified, and the wrapper is not a network error. With a
  server that answers every attempt with status 503 the same call hands four requests to
  the HTTP client and returns \<^verbatim>\<open>max retries exceeded\<close>, wrapping the error of the
  last attempt.
\<close>

theorem doRequest_timeout_not_retried:
  "MaxRetries (retryConfig NewClient) = 3
   \<and> shouldRetry (Some (OtherNetError True)) 0
   \<and> fst (doRequest timeout_env NewClient (str ''GET'') (str ''/product/detail'')
           (Some [(str ''productCode'', [str ''C8734''])]) None (new_world 0))
       = Returned (None, Some (Wrapped ''request failed'' (Some (OtherNetError True))))
   \<and> length (http_log (snd (doRequest timeout_env NewClient (str ''GET'')
           (str ''/product/detail'') (Some [(str ''productCode'', [str ''C8734''])]) None
           (new_world 0)))) = 1
   \<and> fst (doRequest example_env NewClient (str ''GET'') (str ''/product/detail'')
           (Some [(str ''productCode'', [str ''C8734''])]) None (new_world 0))
       = Returned (None, Some (Wrapped ''max retries exceeded'' (Some (UnexpectedStatus 503))))
   \<and> length (http_log (snd (doRequest example_env NewClient (str ''GET'')
           (str ''/product/detail'') (Some [(str ''productCode'', [str ''C8734''])]) None
           (new_world 0)))) = 4"
proof -
  let ?params = "Some [(str ''productCode'', [str ''C8734''])]"
  have M: "MaxRetries (retryConfig NewClient) = 3"
    by (simp add: NewClient_def DefaultRetryConfig_def)
  have S: "shouldRetry (Some (OtherNetError True)) 0"
    by (simp add: shouldRetry_def isTemporaryNetworkError_def isTimeoutError_def)
  have W: "Wait (limiter_events timeout_env (wait_calls (new_world 0))) (limiter (new_world 0))
             = (Returned None, (limiter (new_world 0))\<lparr>tokens := 4\<rparr>)"
    by (simp add: timeout_env_def example_env_def new_world_def NewRateLimiter_def
        refill_def Seconds_def Let_def)
  have D: "http_do timeout_env (length (http_log (new_world 0))) = DoFails (OtherNetError True)"
    by (simp add: timeout_env_def)
  have N: "\<And>u. NewRequest timeout_env (str ''GET'') u = None"
    by (simp add: timeout_env_def example_env_def)
  have C: "\<not> (str ''GET'' = str ''GET'' \<and> hasCache NewClient)"
    by (simp add: NewClient_def)
  have M0: "0 \<le> MaxRetries (retryConfig NewClient)"
    using M by simp
  have L: "length (http_log (new_world 0)) = 0"
    by (simp add: new_world_def)
  note once = doRequest_transport_error_once[OF D N refl W C M0, of "str ''/product/detail''"
      ?params]
  have R: "\<forall>v. attempt_retried example_env NewClient (str ''GET'') (str ''/product/detail'')
             ?params None v"
    by (simp add: attempt_retried_def executeRequest_def example_env_def shouldRetry_not_net)
  have Sl: "\<forall>k. ctx_sleep example_env k = None"
    by (simp add: example_env_def)
  have G: "waits_granted example_env (limiter (new_world 0)) (wait_calls (new_world 0)) 4"
    by (simp add: eval_nat_numeral example_env_def new_world_def NewRateLimiter_def
        refill_def Seconds_def Let_def)
  define v where "v = (new_world 0)\<lparr>http_log := replicate 3 ([], [], None)\<rparr>"
  have lv: "length (http_log v) = length (http_log (new_world 0)) + 3"
    by (simp add: v_def L)
  have ev: "snd (snd (fst (executeRequest example_env NewClient (str ''GET'')
        (str ''/product/detail'') ?params None v))) = Some (UnexpectedStatus 503)"
    by (simp add: executeRequest_def example_env_def Let_def)
  from doRequest_status_retries[OF M R Sl G disjI1[OF C]] obtain w' e where
    run: "doRequest example_env NewClient (str ''GET'') (str ''/product/detail'') ?params None
       (new_world 0) = (Returned (None, Some (Wrapped ''max retries exceeded'' (Some e))), w')"
    and len: "length (http_log w') = length (http_log (new_world 0)) + 4"
    and last: "\<forall>v. length (http_log v) = length (http_log (new_world 0)) + 3 \<longrightarrow>
       snd (snd (fst (executeRequest example_env NewClient (str ''GET'')
         (str ''/product/detail'') ?params None v))) = Some e"
    by blast
  from last lv ev have "e = UnexpectedStatus 503" by auto
  with run len have four: "fst (doRequest example_env NewClient (str ''GET'')
        (str ''/product/detail'') ?params None (new_world 0))
       = Returned (None, Some (Wrapped ''max retries exceeded'' (Some (UnexpectedStatus 503))))"
    "length (http_log (snd (doRequest example_env NewClient (str ''GET'')
        (str ''/product/detail'') ?params None (new_world 0)))) = 4"
    using L by simp_all
  from once M S L four show ?thesis
    by simp
qed

text \<open>
  Claim C6. A \<^verbatim>\<open>GET\<close> request of a client with a cache, whose key the cache has,
  returns the cached bytes and no error. The call of \<^verbatim>\<open>Get\<close> is all that happened:
  the rate limiter is as it was and was not waited at, no request went to the HTTP
  client and there was no backoff sleep.
\<close>

theorem doRequest_cache_hit:
  assumes "method = str ''GET''" and "hasCache c"
    and "cache_reply env (length (cache_gets w)) (buildCacheKey env c method path params)
           = Some cached"
  shows "doRequest env c method path params body w
           = (Returned (Some cached, None),
              w\<lparr>cache_gets := cache_gets w @ [buildCacheKey env c method path params]\<rparr>)
       \<and> limiter (snd (doRequest env c method path params body w)) = limiter w
       \<and> wait_calls (snd (doRequest env c method path params body w)) = wait_calls w
       \<and> http_log (snd (doRequest env c method path params body w)) = http_log w
       \<and> sleeps (snd (doRequest env c method path params body w)) = sleeps w
       \<and> cache_sets (snd (doRequest env c method path params body w)) = cache_sets w"
  using assms by (simp add: doRequest_def cache_Get_def Let_def)

theorem doRequest_cache_hit_witness:
  "str ''GET'' = str ''GET'' \<and> hasCache (WithCache NewClient)
   \<and> cache_reply (example_env\<lparr>cache_reply := \<lambda>n key. Some ''cached''\<rparr>)
        (length (cache_gets (new_world 0)))
        (buildCacheKey (example_env\<lparr>cache_reply := \<lambda>n key. Some ''cached''\<rparr>)
           (WithCache NewClient) (str ''GET'') (str ''/product/detail'') None) = Some ''cached''
   \<and> fst (doRequest (example_env\<lparr>cache_reply := \<lambda>n key. Some ''cached''\<rparr>)
           (WithCache NewClient) (str ''GET'') (str ''/product/detail'') None None (new_world 0))
       = Returned (Some ''cached'', None)
   \<and> limiter (snd (doRequest (example_env\<lparr>cache_reply := \<lambda>n key. Some ''cached''\<rparr>)
           (WithCache NewClient) (str ''GET'') (str ''/product/detail'') None None (new_world 0)))
       = limiter (new_world 0)
   \<and> http_log (snd (doRequest (example_env\<lparr>cache_reply := \<lambda>n key. Some ''cached''\<rparr>)
           (WithCache NewClient) (str ''GET'') (str ''/product/detail'') None None (new_world 0)))
       = []"
proof -
  have h2: "hasCache (WithCache NewClient)"
    by (simp add: WithCache_def)
  have h3: "cache_reply (example_env\<lparr>cache_reply := \<lambda>n key. Some ''cached''\<rparr>)
        (length (cache_gets (new_world 0)))
        (buildCacheKey (example_env\<lparr>cache_reply := \<lambda>n key. Some ''cached''\<rparr>)
           (WithCache NewClient) (str ''GET'') (str ''/product/detail'') None) = Some ''cached''"
    by simp
  have "http_log (new_world 0) = []"
    by (simp add: new_world_def)
  with doRequest_cache_hit[OF refl h2 h3, of None] h2 h3 show ?thesis
    by simp
qed

lemma TrimSpace_all_space:
  assumes "\<forall>r\<in>set s. isSpace r"
  shows "TrimSpace s = []"
proof -
  from assms have "dropWhile isSpace s = []"
    by simp
  then show ?thesis
    unfolding TrimSpace_def by (simp only: rev.simps dropWhile.simps)
qed

text \<open>
  Claim C9. For a keyword that is empty or all white space \<^verbatim>\<open>KeywordSearch\<close> returns
  no response and an error, and leaves the state as it was: cache, rate limiter and HTTP
  client are not touched. \<^verbatim>\<open>GetProductDetails\<close> does the same for such a product
  code.
\<close>

theorem blank_input_rejected:
  assumes "\<forall>r\<in>set s. isSpace r"
  shows "KeywordSearch env js c s w
           = (Returned (None, Some (ErrorString ''keyword is required'')), w)
       \<and> GetProductDetails env js c s w
           = (Returned (None, Some (ErrorString ''productCode is required'')), w)"
  using TrimSpace_all_space[OF assms]
  by (simp add: KeywordSearch_def GetProductDetails_def)

theorem blank_input_rejected_witness:
  "KeywordSearch example_env example_json NewClient [32, 9, 160] (new_world 0)
       = (Returned (None, Some (ErrorString ''keyword is required'')), new_world 0)
   \<and> GetProductDetails example_env example_json NewClient [32, 9, 160] (new_world 0)
       = (Returned (None, Some (ErrorString ''productCode is required'')), new_world 0)"
proof -
  have h: "\<forall>r\<in>set [32, 9, 160]. isSpace r"
    by (simp add: isSpace_def)
  from blank_input_rejected[OF h] show ?thesis
    by blast
qed

lemma TrimSpace_C8734: "TrimSpace (str ''C8734'') = str ''C8734''"
  by (simp add: TrimSpace_def str_def isSpace_def)

lemma TrimSpace_C8734_codes: "TrimSpace [67, 56, 55, 51, 52] = [67, 56, 55, 51, 52]"
  by (simp add: TrimSpace_def isSpace_def)

lemma GET_key_not_empty: "str ''GET'' @ k \<noteq> []"
  by (simp add: str_def)

text \<open>
  Claim C8, on the code. A successful \<^verbatim>\<open>GetProductDetails\<close> of a client with a cache
  stores the body of the response under the key of the request and the encoded product
  under the key of the product, both for 5 minutes, where the default configuration of
  the cache gives 10 minutes to product details.
\<close>

theorem GetProductDetails_stores_five_minutes:
  "cache_sets (snd (GetProductDetails (example_env\<lparr>http_do := \<lambda>n. Reply 200 ''body''\<rparr>)
       example_json (WithCache NewClient) (str ''C8734'') (new_world 0)))
     = [(buildCacheKey example_env (WithCache NewClient) (str ''GET'') (str ''/product/detail'')
           (Some [(str ''productCode'', [str ''C8734''])]), ''body'', 5 * Minute),
        (getCacheKeyProduct (WithCache NewClient) (str ''C8734''), ''product'', 5 * Minute)]
   \<and> DetailsTTL DefaultCacheConfig = 10 * Minute"
proof -
  have "doRequest_loop (example_env\<lparr>http_do := \<lambda>n. Reply 200 ''body''\<rparr>) (WithCache NewClient)
          (str ''GET'') path params None key 0 None
          ((new_world 0)\<lparr>cache_gets := gets\<rparr>)
      = (Returned (Some ''body'', None),
         (new_world 0)\<lparr>cache_gets := gets, limiter := (limiter (new_world 0))\<lparr>tokens := 4\<rparr>, wait_calls := 1,
            http_log := [(str ''GET'', baseURL NewClient @ path @ (case params of None \<Rightarrow> [] | Some ps \<Rightarrow> if length ps > 0 then str ''?'' @ Encode example_env ps else []), None)],
            cache_sets := (if key \<noteq> [] then [(key, ''body'', 5 * Minute)] else [])\<rparr>)"
    for path params key gets
    by (subst doRequest_loop.simps)
       (simp add: rateLimiter_Wait_def example_env_def new_world_def NewRateLimiter_def
          refill_def Seconds_def Let_def executeRequest_def WithCache_def NewClient_def
          cache_Set_def DefaultRetryConfig_def split: option.split)
  then show ?thesis
    by (simp add: GetProductDetails_def TrimSpace_C8734 TrimSpace_C8734_codes cached_lookup_def cache_Get_def doRequest_def
        Let_def parseResponse_def example_json_def cache_Set_def buildCacheKey_def GET_key_not_empty
        DefaultCacheConfig_def WithCache_def example_env_def new_world_def str_def)
qed

end
